theory Spec2Isabelle
  imports Complex_Main "HOL-Library.AList" "HOL-Library.Sublist" "HOL-Library.Log_Nat"
begin

section \<open>Python values used by generate\_donlon\_dataset\_copies.py\<close>

text \<open>
  The script is a batch transformation over an lxml element tree. Exceptions are values
  of type \<open>error\<close>; a function that can raise returns \<open>error + 'a\<close> with \<open>Inl\<close> the
  exception. Strings are \<open>char list\<close>s and are read as ASCII text.
\<close>

datatype error = ValueError | KeyError | ZeroDivisionError | AttributeError | OverflowError

subsection \<open>Strings\<close>

text \<open>
  \<open>str.isspace\<close> on the ASCII range: tab, line feed, vertical tab, form feed, carriage
  return, the four separators 0x1C..0x1F and the blank.
\<close>

definition py_isspace :: "char \<Rightarrow> bool" where
  "py_isspace c =
     (c \<in> set [CHR 0x09, CHR 0x0A, CHR 0x0B, CHR 0x0C, CHR 0x0D,
                CHR 0x1C, CHR 0x1D, CHR 0x1E, CHR 0x1F, CHR 0x20])"

text \<open>\<open>s.strip()\<close>\<close>

definition py_strip :: "string \<Rightarrow> string" where
  "py_strip s = rev (dropWhile py_isspace (rev (dropWhile py_isspace s)))"

text \<open>
  \<open>s.split()\<close>: the maximal runs of non-whitespace characters, in order. The first
  argument of \<open>split_ws\<close> is the token being read.
\<close>

fun split_ws :: "string \<Rightarrow> string \<Rightarrow> string list" where
  "split_ws cur [] = (if cur = [] then [] else [cur])"
| "split_ws cur (c # cs) =
     (if py_isspace c then (if cur = [] then split_ws [] cs else cur # split_ws [] cs)
      else split_ws (cur @ [c]) cs)"

definition py_split :: "string \<Rightarrow> string list" where
  "py_split s = split_ws [] s"

text \<open>\<open>sep.join(xs)\<close>\<close>

fun py_join :: "string \<Rightarrow> string list \<Rightarrow> string" where
  "py_join sep [] = []"
| "py_join sep [x] = x"
| "py_join sep (x # y # ys) = x @ sep @ py_join sep (y # ys)"

text \<open>\<open>sub in s\<close> for strings: \<open>sub\<close> occurs in \<open>s\<close> as a contiguous block.\<close>

fun contains :: "string \<Rightarrow> string \<Rightarrow> bool" where
  "contains sub [] = (sub = [])"
| "contains sub (c # cs) = (prefix sub (c # cs) \<or> contains sub cs)"

text \<open>
  \<open>s.replace(old, new)\<close>: the occurrences of \<open>old\<close> are found from the left and do not
  overlap. The counter is the number of characters of a found occurrence still to be
  skipped. For an empty \<open>old\<close> Python puts \<open>new\<close> before every character and at the end.
\<close>

fun replace_from :: "string \<Rightarrow> string \<Rightarrow> nat \<Rightarrow> string \<Rightarrow> string" where
  "replace_from old new k [] = []"
| "replace_from old new (Suc k) (c # cs) = replace_from old new k cs"
| "replace_from old new 0 (c # cs) =
     (if prefix old (c # cs) then new @ replace_from old new (length old - 1) cs
      else c # replace_from old new 0 cs)"

definition py_replace :: "string \<Rightarrow> string \<Rightarrow> string \<Rightarrow> string" where
  "py_replace old new s =
     (if old = [] then new @ concat (map (\<lambda>c. c # new) s) else replace_from old new 0 s)"

subsection \<open>Integers and their text\<close>

definition digit_char :: "nat \<Rightarrow> char" where
  "digit_char d = ''0123456789'' ! (d mod 10)"

fun str_of_nat :: "nat \<Rightarrow> string" where
  "str_of_nat n = (if n < 10 then [digit_char n] else str_of_nat (n div 10) @ [digit_char n])"

declare str_of_nat.simps [simp del]

text \<open>\<open>str(i)\<close> and the format \<open>{i}\<close> of an int.\<close>

definition str_of_int :: "int \<Rightarrow> string" where
  "str_of_int i = (if i < 0 then CHR ''-'' # str_of_nat (nat (- i)) else str_of_nat (nat i))"

text \<open>
  The format \<open>{i:02d}\<close>: decimal, padded with zeros to width two, the sign counted in
  the width.
\<close>

definition fmt_02d :: "int \<Rightarrow> string" where
  "fmt_02d i =
     (if i < 0 then CHR ''-'' # str_of_nat (nat (- i))
      else if i < 10 then CHR ''0'' # str_of_nat (nat i)
      else str_of_nat (nat i))"

text \<open>
  \<open>int(s)\<close> for a string: surrounding whitespace is dropped, one sign is allowed, and the
  rest is a run of decimal digits in which single underscores may stand between digits.
  Anything else raises ValueError (\<open>None\<close> here; the caller turns it into the exception).
\<close>

definition is_digit :: "char \<Rightarrow> bool" where
  "is_digit c = (c \<in> set ''0123456789'')"

definition digit_val :: "char \<Rightarrow> nat" where
  "digit_val c = of_char c - 48"

fun digits_ok :: "string \<Rightarrow> bool" where
  "digits_ok [] = False"
| "digits_ok [c] = is_digit c"
| "digits_ok (c # d # cs) =
     (is_digit c \<and> (if d = CHR ''_'' then digits_ok cs else digits_ok (d # cs)))"

definition nat_of_digits :: "string \<Rightarrow> nat" where
  "nat_of_digits s = foldl (\<lambda>a c. if c = CHR ''_'' then a else 10 * a + digit_val c) 0 s"

definition py_int :: "string \<Rightarrow> int option" where
  "py_int s =
     (let t = py_strip s;
          neg = (t \<noteq> [] \<and> hd t = CHR ''-'');
          body = (if t \<noteq> [] \<and> (hd t = CHR ''-'' \<or> hd t = CHR ''+'') then tl t else t)
      in if digits_ok body
         then Some (if neg then - int (nat_of_digits body) else int (nat_of_digits body))
         else None)"

subsection \<open>Floats\<close>

text \<open>
  Python's \<open>float\<close> is an IEEE 754 binary64 number, and \<open>float(s)\<close> and \<open>str(x)\<close> are
  the C library's conversions. The functions below take the float implementation as a
  parameter, a record of the operations the script uses. \<open>from_int\<close> is the conversion
  of an int operand in a mixed product (\<open>None\<close> when Python raises OverflowError, int too
  large to convert to float), \<open>from_literal\<close> the value of a decimal literal of the source
  text, \<open>float_of_str\<close> is \<open>float(s)\<close> (\<open>None\<close> for ValueError) and \<open>str_of_float\<close> is
  the format \<open>{x}\<close>. Python's division raises ZeroDivisionError for a zero divisor; the
  divisors the script uses are the nonzero literals 60.0, 60.0 * 0.6157 and 10.0, so
  \<open>fdiv\<close> has no error case.
\<close>

record 'f pyfloat =
  from_int :: "int \<Rightarrow> 'f option"
  from_literal :: "rat \<Rightarrow> 'f"
  fadd :: "'f \<Rightarrow> 'f \<Rightarrow> 'f"
  fmul :: "'f \<Rightarrow> 'f \<Rightarrow> 'f"
  fdiv :: "'f \<Rightarrow> 'f \<Rightarrow> 'f"
  float_of_str :: "string \<Rightarrow> 'f option"
  str_of_float :: "'f \<Rightarrow> string"

text \<open>
  The binary64 numbers: a finite number is a sign and a magnitude (so that there are two
  zeros), and there are two infinities and NaN. Every operation below returns a number
  whose magnitude is representable in binary64 when its arguments are.
\<close>

datatype binary64 = Finite bool rat | Infinity bool | NaN

text \<open>
  Rounding to nearest, ties to even. \<open>bitlen n\<close> is the number of binary digits of
  \<open>n\<close>, \<open>pow2 e\<close> is \<open>2 ^ e\<close> for an integer \<open>e\<close>, and \<open>ilog2 q\<close>, for a positive \<open>q\<close>, is
  the exponent \<open>e\<close> with \<open>2 ^ e \<le> q < 2 ^ (e + 1)\<close>. A binary64 number has 53 significant
  bits and exponents from \<open>-1022\<close> to \<open>1023\<close>: \<open>round_mag q\<close> is the multiple of the unit
  in the last place that is nearest to the magnitude \<open>q\<close>, and \<open>None\<close> when that is
  \<open>2 ^ 1024\<close> or more (overflow).
\<close>

definition pow2 :: "int \<Rightarrow> rat" where
  "pow2 e = (if 0 \<le> e then 2 ^ nat e else 1 / 2 ^ nat (- e))"

definition ilog2 :: "rat \<Rightarrow> int" where
  "ilog2 q =
     (let a = fst (quotient_of q); b = snd (quotient_of q);
          k = bitlen a - bitlen b
      in if pow2 k \<le> q then k else k - 1)"

definition round_half_even :: "rat \<Rightarrow> int" where
  "round_half_even q =
     (let f = \<lfloor>q\<rfloor>; r = q - of_int f
      in if r < 1 / 2 then f
         else if 1 / 2 < r then f + 1
         else if even f then f else f + 1)"

definition round_mag :: "rat \<Rightarrow> rat option" where
  "round_mag q =
     (if q = 0 then Some 0
      else
        let e = max (ilog2 q) (- 1022);
            ulp = pow2 (e - 52);
            r = of_int (round_half_even (q / ulp)) * ulp
        in if pow2 1024 \<le> r then None else Some r)"

definition rnd :: "bool \<Rightarrow> rat \<Rightarrow> binary64" where
  "rnd negative q = (case round_mag q of None \<Rightarrow> Infinity negative | Some m \<Rightarrow> Finite negative m)"

text \<open>
  The conversion of an int (\<open>PyLong_AsDouble\<close>: correctly rounded, OverflowError when the
  result is out of range) and the value of a decimal literal (correctly rounded).
\<close>

definition b64_of_int :: "int \<Rightarrow> binary64 option" where
  "b64_of_int i =
     (case round_mag (of_int \<bar>i\<bar>) of None \<Rightarrow> None | Some m \<Rightarrow> Some (Finite (i < 0) m))"

definition b64_of_literal :: "rat \<Rightarrow> binary64" where
  "b64_of_literal q = rnd (q < 0) \<bar>q\<bar>"

text \<open>
  The IEEE operations \<open>*\<close>, \<open>/\<close> and \<open>+\<close>. The sign of a product or quotient is the
  exclusive or of the signs; infinity times zero, infinity by infinity and the sum of
  opposite infinities are NaN; a sum that is exactly zero is \<open>+0\<close> unless both terms are
  \<open>-0\<close>. Python raises ZeroDivisionError for a zero divisor, which no call of the script
  has; \<open>b64_div\<close> gives NaN there.
\<close>

fun b64_mul :: "binary64 \<Rightarrow> binary64 \<Rightarrow> binary64" where
  "b64_mul NaN y = NaN"
| "b64_mul x NaN = NaN"
| "b64_mul (Finite s a) (Finite t b) = rnd (s \<noteq> t) (a * b)"
| "b64_mul (Finite s a) (Infinity t) = (if a = 0 then NaN else Infinity (s \<noteq> t))"
| "b64_mul (Infinity s) (Finite t b) = (if b = 0 then NaN else Infinity (s \<noteq> t))"
| "b64_mul (Infinity s) (Infinity t) = Infinity (s \<noteq> t)"

fun b64_div :: "binary64 \<Rightarrow> binary64 \<Rightarrow> binary64" where
  "b64_div NaN y = NaN"
| "b64_div x NaN = NaN"
| "b64_div (Finite s a) (Finite t b) = (if b = 0 then NaN else rnd (s \<noteq> t) (a / b))"
| "b64_div (Finite s a) (Infinity t) = Finite (s \<noteq> t) 0"
| "b64_div (Infinity s) (Finite t b) = (if b = 0 then NaN else Infinity (s \<noteq> t))"
| "b64_div (Infinity s) (Infinity t) = NaN"

fun b64_add :: "binary64 \<Rightarrow> binary64 \<Rightarrow> binary64" where
  "b64_add NaN y = NaN"
| "b64_add x NaN = NaN"
| "b64_add (Finite s a) (Finite t b) =
     (let z = (if s then - a else a) + (if t then - b else b)
      in if z = 0 then Finite (s \<and> t) 0 else rnd (z < 0) \<bar>z\<bar>)"
| "b64_add (Finite s a) (Infinity t) = Infinity t"
| "b64_add (Infinity s) (Finite t b) = Infinity s"
| "b64_add (Infinity s) (Infinity t) = (if s = t then Infinity s else NaN)"

declare b64_mul.simps [simp del] b64_div.simps [simp del] b64_add.simps [simp del]

definition binary64_float ::
  "(string \<Rightarrow> binary64 option) \<Rightarrow> (binary64 \<Rightarrow> string) \<Rightarrow> binary64 pyfloat" where
  "binary64_float p r =
     \<lparr> from_int = b64_of_int, from_literal = b64_of_literal,
       fadd = b64_add, fmul = b64_mul, fdiv = b64_div,
       float_of_str = p, str_of_float = r \<rparr>"

text \<open>
  A second implementation, for concrete runs of the functions whose result does not
  depend on the arithmetic: real numbers without rounding. The two text conversions are
  parameters.
\<close>

definition exact_float :: "(string \<Rightarrow> real option) \<Rightarrow> (real \<Rightarrow> string) \<Rightarrow> real pyfloat" where
  "exact_float p r =
     \<lparr> from_int = (\<lambda>i. Some (real_of_int i)), from_literal = real_of_rat,
       fadd = (\<lambda>x y. x + y), fmul = (\<lambda>x y. x * y), fdiv = (\<lambda>x y. x / y),
       float_of_str = p, str_of_float = r \<rparr>"

section \<open>Utility helpers\<close>

text \<open>
  \<open>calculate_grid_offset(index, grid_cols, distance_nm)\<close>, lines 119 to 125. \<open>//\<close> and
  \<open>%\<close> on ints round towards minus infinity, as \<open>div\<close> and \<open>mod\<close> on \<open>int\<close> do, and
  raise ZeroDivisionError for a zero divisor. The products \<open>row * distance_nm\<close> and
  \<open>col * distance_nm\<close> convert the int to a float first.
\<close>

definition calculate_grid_offset :: "'f pyfloat \<Rightarrow> int \<Rightarrow> int \<Rightarrow> 'f \<Rightarrow> error + ('f \<times> 'f)" where
  "calculate_grid_offset F index grid_cols distance_nm =
     (if grid_cols = 0 then Inl ZeroDivisionError
      else
        let row = index div grid_cols;
            col = index mod grid_cols;
            lat_per_nm = fdiv F (from_literal F 1) (from_literal F 60);
            lon_per_nm = fdiv F (from_literal F 1)
                           (fmul F (from_literal F 60) (from_literal F (6157 / 10000)))
        in case from_int F row of
             None \<Rightarrow> Inl OverflowError
           | Some r \<Rightarrow>
               (case from_int F col of
                  None \<Rightarrow> Inl OverflowError
                | Some c \<Rightarrow>
                    Inr (fmul F (fmul F r distance_nm) lat_per_nm,
                         fmul F (fmul F c distance_nm) lon_per_nm)))"

text \<open>
  \<open>offset_coordinate(coord_str, lat_offset, lon_offset)\<close>, lines 128 to 137. A ValueError
  of either \<open>float(...)\<close> is caught and the string is returned as it came.
\<close>

definition offset_coordinate :: "'f pyfloat \<Rightarrow> string \<Rightarrow> 'f \<Rightarrow> 'f \<Rightarrow> string" where
  "offset_coordinate F coord_str lat_offset lon_offset =
     (case py_split (py_strip coord_str) of
        a # b # _ \<Rightarrow>
          (case float_of_str F a of
             None \<Rightarrow> coord_str
           | Some x \<Rightarrow>
               (case float_of_str F b of
                  None \<Rightarrow> coord_str
                | Some y \<Rightarrow>
                    str_of_float F (fadd F x lat_offset) @ '' '' @
                    str_of_float F (fadd F y lon_offset)))
      | _ \<Rightarrow> coord_str)"

text \<open>
  \<open>offset_pos_list\<close>, lines 140 to 162. The first loop walks the tokens two by two
  (\<open>range(0, len(values), 2)\<close>) and appends a pair only when \<open>i + 1 < len(values)\<close>.
\<close>

fun coord_pairs :: "'f pyfloat \<Rightarrow> string list \<Rightarrow> 'f \<Rightarrow> 'f \<Rightarrow> string list" where
  "coord_pairs F (a # b # rest) lat_offset lon_offset =
     (case float_of_str F a of
        None \<Rightarrow> a @ '' '' @ b
      | Some x \<Rightarrow>
          (case float_of_str F b of
             None \<Rightarrow> a @ '' '' @ b
           | Some y \<Rightarrow>
               str_of_float F (fadd F x lat_offset) @ '' '' @
               str_of_float F (fadd F y lon_offset)))
     # coord_pairs F rest lat_offset lon_offset"
| "coord_pairs F [a] lat_offset lon_offset = []"
| "coord_pairs F [] lat_offset lon_offset = []"

text \<open>
  The second loop, one step per pair: \<open>lines\<close> and \<open>current\<close> are the loop's two
  variables.
\<close>

definition wrap_step :: "int \<Rightarrow> string list \<times> string \<Rightarrow> string \<Rightarrow> string list \<times> string" where
  "wrap_step max_line_length st pair =
     (let lines = fst st; current = snd st;
          test = (if current \<noteq> [] then current @ '' '' @ pair else pair)
      in if int (length test) > max_line_length \<and> current \<noteq> []
         then (lines @ [current], pair)
         else (lines, test))"

definition wrap_lines :: "int \<Rightarrow> string list \<Rightarrow> string list" where
  "wrap_lines max_line_length pairs =
     (let st = foldl (wrap_step max_line_length) ([], []) pairs
      in if snd st \<noteq> [] then fst st @ [snd st] else fst st)"

definition offset_pos_list :: "'f pyfloat \<Rightarrow> string \<Rightarrow> 'f \<Rightarrow> 'f \<Rightarrow> int \<Rightarrow> string" where
  "offset_pos_list F pos_list_str lat_offset lon_offset max_line_length =
     (let values = py_split (py_strip pos_list_str);
          pairs = coord_pairs F values lat_offset lon_offset
      in py_join [CHR 0x0A] (wrap_lines max_line_length pairs))"

section \<open>The element tree\<close>

text \<open>
  An lxml node: its tag (\<open>None\<close> for a comment or a processing instruction, whose
  \<open>tag\<close> is not a string), its attributes, its text, its tail and its children in
  document order. The attribute dict is an association list read with \<open>map_of\<close> and
  written with \<open>AList.update\<close>.
\<close>

datatype elem =
  Elem (tag: "string option") (attrib: "(string \<times> string) list")
       (etext: "string option") (etail: "string option") (children: "elem list")

definition GML_ID :: string where
  "GML_ID = ''{http://www.opengis.net/gml/3.2}id''"

definition XLINK_HREF :: string where
  "XLINK_HREF = ''{http://www.w3.org/1999/xlink}href''"

definition XSI_NIL :: string where
  "XSI_NIL = ''{http://www.w3.org/2001/XMLSchema-instance}nil''"

definition EADD_UUID :: string where
  "EADD_UUID = ''1b54b2d6-a5ff-4e57-94c2-f4047a381c64''"

text \<open>The qualified names \<open>aixm:name\<close> and \<open>gml:name\<close> resolved through NSMAP.\<close>

definition aixm :: "string \<Rightarrow> string" where
  "aixm name = ''{http://www.aixm.aero/schema/5.1.1}'' @ name"

definition gml :: "string \<Rightarrow> string" where
  "gml name = ''{http://www.opengis.net/gml/3.2}'' @ name"

definition NAVAID_EQUIPMENT_TYPES :: "string list" where
  "NAVAID_EQUIPMENT_TYPES = [''VOR'', ''DME'', ''NDB'', ''TACAN'', ''Localizer'', ''Glidepath'']"

definition AIRSPACE_DESIGNATORS :: "string list" where
  "AIRSPACE_DESIGNATORS =
     [''EAR1'', ''EAV10'', ''EAP2'', ''EAV8'', ''EAD4'', ''EAV11'', ''EAD5'', ''EAR4'']"

definition VS_PROPERTIES_TO_REMOVE :: "string list" where
  "VS_PROPERTIES_TO_REMOVE =
     [''hostedPassengerService'', ''supportedGroundLight'', ''hostedSpecialNavStation'',
      ''hostedUnit'', ''hostedOrganisation'', ''supportedService'']"

text \<open>\<open>elem.get(key)\<close>, \<open>elem.set(key, value)\<close> and the assignment \<open>elem.text = value\<close>.\<close>

definition get_attr :: "elem \<Rightarrow> string \<Rightarrow> string option" where
  "get_attr e k = map_of (attrib e) k"

definition set_attr :: "string \<Rightarrow> string \<Rightarrow> elem \<Rightarrow> elem" where
  "set_attr k v e = Elem (tag e) (AList.update k v (attrib e)) (etext e) (etail e) (children e)"

definition set_text :: "string option \<Rightarrow> elem \<Rightarrow> elem" where
  "set_text x e = Elem (tag e) (attrib e) x (etail e) (children e)"

definition set_children :: "elem list \<Rightarrow> elem \<Rightarrow> elem" where
  "set_children cs e = Elem (tag e) (attrib e) (etext e) (etail e) cs"

definition has_tag :: "string \<Rightarrow> elem \<Rightarrow> bool" where
  "has_tag t e = (tag e = Some t)"

text \<open>
  \<open>isinstance(tag, str) and sub in tag\<close>, the test the script uses to recognise a
  TimeSlice element.
\<close>

definition tag_contains :: "string \<Rightarrow> elem \<Rightarrow> bool" where
  "tag_contains sub e = (case tag e of None \<Rightarrow> False | Some t \<Rightarrow> contains sub t)"

text \<open>\<open>elem.iter()\<close>: the element and its descendants in document order.\<close>

fun iter :: "elem \<Rightarrow> elem list" where
  "iter (Elem t a x y cs) = Elem t a x y cs # concat (map iter cs)"

text \<open>\<open>elem.find(path)\<close> with a qualified name: the first child with that tag.\<close>

definition find_child :: "string \<Rightarrow> elem \<Rightarrow> elem option" where
  "find_child t e = List.find (has_tag t) (children e)"

text \<open>
  The loops of the shape \<open>for child in elem.iter(): if P(child): ...; break\<close> act on the
  first node in document order that satisfies \<open>P\<close>. Over a forest, \<open>first_desc\<close> finds
  that node and \<open>map_first\<close> rewrites it in place.
\<close>

fun first_desc :: "(elem \<Rightarrow> bool) \<Rightarrow> elem list \<Rightarrow> elem option" where
  "first_desc P [] = None"
| "first_desc P (Elem t a x y cs # rest) =
     (if P (Elem t a x y cs) then Some (Elem t a x y cs)
      else (case first_desc P cs of
              Some r \<Rightarrow> Some r
            | None \<Rightarrow> first_desc P rest))"

fun map_first :: "(elem \<Rightarrow> bool) \<Rightarrow> (elem \<Rightarrow> elem) \<Rightarrow> elem list \<Rightarrow> elem list" where
  "map_first P f [] = []"
| "map_first P f (Elem t a x y cs # rest) =
     (if P (Elem t a x y cs) then f (Elem t a x y cs) # rest
      else (case first_desc P cs of
              Some r \<Rightarrow> Elem t a x y (map_first P f cs) # rest
            | None \<Rightarrow> Elem t a x y cs # map_first P f rest))"

text \<open>The first child that satisfies \<open>P\<close>, rewritten in place (\<open>find\<close>, then a mutation).\<close>

fun upd_first_child :: "(elem \<Rightarrow> bool) \<Rightarrow> (elem \<Rightarrow> elem) \<Rightarrow> elem list \<Rightarrow> elem list" where
  "upd_first_child P g [] = []"
| "upd_first_child P g (c # cs) = (if P c then g c # cs else c # upd_first_child P g cs)"

section \<open>Feature extraction\<close>

text \<open>
  \<open>get_xlink_hrefs(feature_elem)\<close>, lines 176 to 183: the identifiers the element
  refers to by an \<open>xlink:href\<close> of the form \<open>urn:uuid:...\<close>.
\<close>

definition href_values :: "elem \<Rightarrow> string list" where
  "href_values e = List.map_filter (\<lambda>x. get_attr x XLINK_HREF) (iter e)"

definition is_urn_uuid :: "string \<Rightarrow> bool" where
  "is_urn_uuid href = (href \<noteq> [] \<and> prefix ''urn:uuid:'' href)"

definition get_xlink_hrefs :: "elem \<Rightarrow> string set" where
  "get_xlink_hrefs feature_elem =
     set (map (py_replace ''urn:uuid:'' []) (filter is_urn_uuid (href_values feature_elem)))"

section \<open>Feature cloning\<close>

text \<open>
  \<open>update_feature_ids(feature_elem, new_uuid)\<close>, lines 350 to 393.
  \<open>read_number\<close> is the expression
  \<open>int(e.text) if e is not None and e.text else dflt\<close>.
\<close>

definition read_number :: "elem option \<Rightarrow> int \<Rightarrow> error + int" where
  "read_number e dflt =
     (case e of
        None \<Rightarrow> Inr dflt
      | Some el \<Rightarrow>
          (case etext el of
             None \<Rightarrow> Inr dflt
           | Some t \<Rightarrow>
               if t = [] then Inr dflt
               else (case py_int t of None \<Rightarrow> Inl ValueError | Some n \<Rightarrow> Inr n)))"

text \<open>
  The last loop of \<open>update_feature_ids\<close>: every descendant of the TimeSlice that has a
  \<open>gml:id\<close> gets the next number, in document order. The counter goes in and comes out.
\<close>

fun renumber :: "string \<Rightarrow> nat \<Rightarrow> elem list \<Rightarrow> elem list \<times> nat" where
  "renumber pre child_idx [] = ([], child_idx)"
| "renumber pre child_idx (Elem t a x y cs # rest) =
     (let here = (map_of a GML_ID \<noteq> None);
          a' = (if here then AList.update GML_ID (pre @ ''_'' @ str_of_nat child_idx) a else a);
          n1 = (if here then child_idx + 1 else child_idx);
          r1 = renumber pre n1 cs;
          r2 = renumber pre (snd r1) rest
      in (Elem t a' x y (fst r1) # fst r2, snd r2))"

definition timeslice_ids :: "string \<Rightarrow> elem \<Rightarrow> elem" where
  "timeslice_ids pre timeslice =
     set_children (fst (renumber pre 1 (children timeslice))) (set_attr GML_ID pre timeslice)"

definition update_feature_ids :: "elem \<Rightarrow> string \<Rightarrow> error + elem" where
  "update_feature_ids feature_elem new_uuid =
     (let e1 = set_attr GML_ID (''uuid.'' @ new_uuid) feature_elem;
          e2 = set_children
                 (upd_first_child (has_tag (gml ''identifier'')) (set_text (Some new_uuid))
                    (children e1)) e1
      in case first_desc (tag_contains ''TimeSlice'') (children e2) of
           None \<Rightarrow> Inr e2
         | Some timeslice \<Rightarrow>
             (case read_number (find_child (aixm ''sequenceNumber'') timeslice) 1 of
                Inl err \<Rightarrow> Inl err
              | Inr seq \<Rightarrow>
                  (case read_number (find_child (aixm ''correctionNumber'') timeslice) 0 of
                     Inl err \<Rightarrow> Inl err
                   | Inr corr \<Rightarrow>
                       Inr (set_children
                              (map_first (tag_contains ''TimeSlice'')
                                 (timeslice_ids
                                    (''id_'' @ new_uuid @ ''_'' @ str_of_int seq @ ''_'' @
                                     str_of_int corr @ ''_B''))
                                 (children e2)) e2))))"

text \<open>
  \<open>update_xlink_refs(feature_elem, uuid_map)\<close>, lines 396 to 406. \<open>uuid_map\<close> is the
  dict from old to new identifiers.
\<close>

definition rewrite_href :: "(string \<times> string) list \<Rightarrow> (string \<times> string) list \<Rightarrow> (string \<times> string) list" where
  "rewrite_href uuid_map a =
     (case map_of a XLINK_HREF of
        None \<Rightarrow> a
      | Some href \<Rightarrow>
          if is_urn_uuid href
          then (case map_of uuid_map (py_replace ''urn:uuid:'' [] href) of
                  None \<Rightarrow> a
                | Some new \<Rightarrow> AList.update XLINK_HREF (''urn:uuid:'' @ new) a)
          else a)"

fun update_xlink_refs :: "elem \<Rightarrow> (string \<times> string) list \<Rightarrow> elem" where
  "update_xlink_refs (Elem t a x y cs) uuid_map =
     Elem t (rewrite_href uuid_map a) x y (map (\<lambda>c. update_xlink_refs c uuid_map) cs)"

text \<open>
  \<open>offset_all_coordinates(feature_elem, lat_offset, lon_offset)\<close>, lines 409 to 419:
  one pass over the \<open>gml:pos\<close> elements, one over the \<open>gml:posList\<close> elements. A pass
  rewrites the text of every element with the tag whose text is not blank.
\<close>

fun map_text_of :: "string \<Rightarrow> (string \<Rightarrow> string) \<Rightarrow> elem \<Rightarrow> elem" where
  "map_text_of t0 f (Elem t a x y cs) =
     Elem t a
       (case x of
          None \<Rightarrow> None
        | Some s \<Rightarrow> if t = Some t0 \<and> s \<noteq> [] \<and> py_strip s \<noteq> [] then Some (f s) else Some s)
       y (map (map_text_of t0 f) cs)"

definition offset_all_coordinates :: "'f pyfloat \<Rightarrow> elem \<Rightarrow> 'f \<Rightarrow> 'f \<Rightarrow> elem" where
  "offset_all_coordinates F feature_elem lat_offset lon_offset =
     map_text_of (gml ''posList'') (\<lambda>s. offset_pos_list F s lat_offset lon_offset 200)
       (map_text_of (gml ''pos'') (\<lambda>s. offset_coordinate F s lat_offset lon_offset)
          feature_elem)"

text \<open>
  The type-specific updates of \<open>clone_feature_set\<close>, lines 464 to 539. Each acts on the
  first TimeSlice of the copy. \<open>map_first_in\<close> is the search that starts at the element
  itself (the AirportHeliport branch has no \<open>child is not new_elem\<close> test), and
  \<open>map_first_below\<close> the one that skips it.
\<close>

definition map_first_in :: "(elem \<Rightarrow> bool) \<Rightarrow> (elem \<Rightarrow> elem) \<Rightarrow> elem \<Rightarrow> elem" where
  "map_first_in P f e = (if P e then f e else set_children (map_first P f (children e)) e)"

definition map_first_below :: "(elem \<Rightarrow> bool) \<Rightarrow> (elem \<Rightarrow> elem) \<Rightarrow> elem \<Rightarrow> elem" where
  "map_first_below P f e = set_children (map_first P f (children e)) e"

definition designator_of :: "int \<Rightarrow> string" where
  "designator_of index = ''E'' @ fmt_02d (index + 1) @ ''D''"

definition suffix_of :: "int \<Rightarrow> string" where
  "suffix_of index = ''-'' @ fmt_02d (index + 1)"

text \<open>Lines 472 to 480: the designator and the name of the airport's TimeSlice.\<close>

definition airport_timeslice :: "int \<Rightarrow> elem \<Rightarrow> elem" where
  "airport_timeslice index ts =
     set_children
       (upd_first_child (has_tag (aixm ''name''))
          (set_text (Some (''DONLON INTL. '' @ fmt_02d (index + 1))))
          (upd_first_child (has_tag (aixm ''designator''))
             (set_text (Some (designator_of index))) (children ts)))
       ts"

text \<open>\<open>if d is not None and d.text: d.text = d.text + suffix\<close>\<close>

definition append_suffix :: "string \<Rightarrow> elem \<Rightarrow> elem" where
  "append_suffix sfx d =
     (case etext d of
        None \<Rightarrow> d
      | Some t \<Rightarrow> if t \<noteq> [] then set_text (Some (t @ sfx)) d else d)"

text \<open>Lines 489 to 494 and 533 to 538: Navaid, NavaidEquipment and Airspace.\<close>

definition suffix_timeslice :: "string \<Rightarrow> elem \<Rightarrow> elem" where
  "suffix_timeslice sfx ts =
     set_children
       (upd_first_child (has_tag (aixm ''name'')) (append_suffix sfx)
          (upd_first_child (has_tag (aixm ''designator'')) (append_suffix sfx)
             (children ts)))
       ts"

text \<open>
  Lines 509 to 518: the designator of every VerticalStructurePart below the TimeSlice,
  unless it is blank or carries a non-empty \<open>xsi:nil\<close>.
\<close>

definition part_designator :: "string \<Rightarrow> elem \<Rightarrow> elem" where
  "part_designator sfx pd =
     (case etext pd of
        None \<Rightarrow> pd
      | Some t \<Rightarrow>
          if t \<noteq> [] \<and> py_strip t \<noteq> []
          then (case get_attr pd XSI_NIL of
                  None \<Rightarrow> set_text (Some (t @ sfx)) pd
                | Some v \<Rightarrow> if v = [] then set_text (Some (t @ sfx)) pd else pd)
          else pd)"

fun suffix_parts :: "string \<Rightarrow> elem \<Rightarrow> elem" where
  "suffix_parts sfx (Elem t a x y cs) =
     Elem t a x y
       (if t = Some (aixm ''VerticalStructurePart'')
        then upd_first_child (has_tag (aixm ''designator'')) (part_designator sfx)
               (map (suffix_parts sfx) cs)
        else map (suffix_parts sfx) cs)"

text \<open>Lines 520 to 524: the children with one of the listed names are removed.\<close>

definition remove_property :: "elem \<Rightarrow> string \<Rightarrow> elem" where
  "remove_property ts prop_name =
     set_children (filter (\<lambda>c. \<not> has_tag (aixm prop_name) c) (children ts)) ts"

definition vs_timeslice :: "string \<Rightarrow> elem \<Rightarrow> elem" where
  "vs_timeslice sfx ts =
     foldl remove_property
       (suffix_parts sfx
          (set_children
             (upd_first_child (has_tag (aixm ''name'')) (append_suffix sfx) (children ts))
             ts))
       VS_PROPERTIES_TO_REMOVE"

section \<open>The store\<close>

text \<open>
  The feature elements are objects that the script reaches through references: the
  catalog and the belonging set hold references into the parsed document, and
  \<open>copy.deepcopy\<close> makes a new object. The store is the list of the feature elements
  allocated so far and a reference is an index into it. A feature element owns its
  subtree (the script takes features from distinct \<open>hasMember\<close> elements), so one store
  cell holds a whole feature element.
\<close>

type_synonym ref = nat

type_synonym store = "elem list"

text \<open>
  \<open>features_by_type\<close>: for every type name the dict from identifier to element (lines
  186 to 200 build it with every name of FEATURE\_TYPES as a key). The belonging set
  \<open>collected\<close>: the dict from identifier to \<open>(type_name, element)\<close>, in insertion order.
\<close>

type_synonym catalog = "string \<Rightarrow> (string \<times> ref) list"

type_synonym belonging = "(string \<times> (string \<times> ref)) list"

definition keys :: "('k \<times> 'v) list \<Rightarrow> 'k set" where
  "keys d = fst ` set d"

definition deepcopy :: "store \<Rightarrow> ref \<Rightarrow> store \<times> ref" where
  "deepcopy st r = (st @ [st ! r], length st)"

section \<open>collect\_eadd\_features\<close>

text \<open>The helper \<open>find_referencing\<close>, lines 219 to 227, with the \<open>collected\<close> it closes over.\<close>

definition find_referencing ::
  "store \<Rightarrow> catalog \<Rightarrow> belonging \<Rightarrow> string \<Rightarrow> string set \<Rightarrow> (string \<times> ref) list" where
  "find_referencing st features_by_type collected feat_type target_uuids =
     filter (\<lambda>item. fst item \<notin> keys collected \<and>
                     get_xlink_hrefs (st ! snd item) \<inter> target_uuids \<noteq> {})
       (features_by_type feat_type)"

text \<open>\<open>for u, e in found.items(): collected[u] = (feat_type, e)\<close>\<close>

definition add_all :: "string \<Rightarrow> (string \<times> ref) list \<Rightarrow> belonging \<Rightarrow> belonging" where
  "add_all feat_type found collected =
     foldl (\<lambda>c item. AList.update (fst item) (feat_type, snd item) c) collected found"

text \<open>Steps 1 to 10, lines 216 to 284, from the airport's element on.\<close>

definition collect_airport_chain :: "store \<Rightarrow> catalog \<Rightarrow> ref \<Rightarrow> belonging" where
  "collect_airport_chain st fbt ahp =
     (let collected = AList.update EADD_UUID (''AirportHeliport'', ahp) [];
          airport_uuids = {EADD_UUID};
          runways = find_referencing st fbt collected ''Runway'' airport_uuids;
          collected = add_all ''Runway'' runways collected;
          runway_uuids = keys runways;
          rwy_dirs = find_referencing st fbt collected ''RunwayDirection'' runway_uuids;
          collected = add_all ''RunwayDirection'' rwy_dirs collected;
          rwy_dir_uuids = keys rwy_dirs;
          rwy_elems = find_referencing st fbt collected ''RunwayElement'' runway_uuids;
          collected = add_all ''RunwayElement'' rwy_elems collected;
          rcps = find_referencing st fbt collected ''RunwayCentrelinePoint'' rwy_dir_uuids;
          collected = add_all ''RunwayCentrelinePoint'' rcps collected;
          tlofs = find_referencing st fbt collected ''TouchDownLiftOff''
                    (airport_uuids \<union> runway_uuids);
          collected = add_all ''TouchDownLiftOff'' tlofs collected;
          taxiways = find_referencing st fbt collected ''Taxiway'' airport_uuids;
          collected = add_all ''Taxiway'' taxiways collected;
          taxiway_uuids = keys taxiways;
          twy_elems = find_referencing st fbt collected ''TaxiwayElement'' taxiway_uuids;
          collected = add_all ''TaxiwayElement'' twy_elems collected;
          aprons = find_referencing st fbt collected ''Apron'' airport_uuids;
          collected = add_all ''Apron'' aprons collected;
          apron_uuids = keys aprons;
          apron_elems = find_referencing st fbt collected ''ApronElement'' apron_uuids;
          collected = add_all ''ApronElement'' apron_elems collected;
          apron_elem_uuids = keys apron_elems;
          stands = find_referencing st fbt collected ''AircraftStand''
                     (apron_elem_uuids \<union> airport_uuids);
          collected = add_all ''AircraftStand'' stands collected
      in collected)"

text \<open>
  Step 11, lines 293 to 298. The state of the loop is the pair of \<open>collected\<close> and
  \<open>eadd_navaid_uuids\<close>.
\<close>

definition navaid_step ::
  "store \<Rightarrow> string set \<Rightarrow> belonging \<times> string set \<Rightarrow> string \<times> ref \<Rightarrow> belonging \<times> string set" where
  "navaid_step st eadd_uuids_so_far acc item =
     (if fst item \<notin> keys (fst acc)
      then (AList.update (fst item) (''Navaid'', snd item) (fst acc),
            if get_xlink_hrefs (st ! snd item) \<inter> eadd_uuids_so_far \<noteq> {}
            then insert (fst item) (snd acc) else snd acc)
      else acc)"

definition collect_navaids ::
  "store \<Rightarrow> catalog \<Rightarrow> string set \<Rightarrow> belonging \<Rightarrow> belonging \<times> string set" where
  "collect_navaids st fbt eadd_uuids_so_far collected =
     foldl (navaid_step st eadd_uuids_so_far) (collected, {}) (fbt ''Navaid'')"

text \<open>
  Step 12, lines 302 to 309. \<open>eadd_plus_navaid\<close> is computed once, before the loops.
\<close>

definition equipment_step ::
  "store \<Rightarrow> string set \<Rightarrow> string \<Rightarrow> belonging \<times> string set \<Rightarrow> string \<times> ref
     \<Rightarrow> belonging \<times> string set" where
  "equipment_step st eadd_plus_navaid eq_type acc item =
     (if fst item \<notin> keys (fst acc)
      then (AList.update (fst item) (eq_type, snd item) (fst acc),
            if get_xlink_hrefs (st ! snd item) \<inter> eadd_plus_navaid \<noteq> {}
            then insert (fst item) (snd acc) else snd acc)
      else acc)"

definition collect_equipment ::
  "store \<Rightarrow> catalog \<Rightarrow> string set \<Rightarrow> belonging \<times> string set \<Rightarrow> belonging \<times> string set" where
  "collect_equipment st fbt eadd_plus_navaid acc0 =
     foldl (\<lambda>acc eq_type. foldl (equipment_step st eadd_plus_navaid eq_type) acc (fbt eq_type))
       acc0 NAVAID_EQUIPMENT_TYPES"

text \<open>
  The top-down pass, lines 312 to 318. It runs over a snapshot of the set
  (\<open>list(eadd_navaid_uuids)\<close>) and adds every identifier that a marked Navaid refers to
  and that is a key of one of the equipment dicts.
\<close>

definition is_equipment :: "catalog \<Rightarrow> string \<Rightarrow> bool" where
  "is_equipment fbt ref_uuid = (\<exists>eq_type \<in> set NAVAID_EQUIPMENT_TYPES. ref_uuid \<in> keys (fbt eq_type))"

definition mark_referenced_equipment :: "store \<Rightarrow> catalog \<Rightarrow> string set \<Rightarrow> string set" where
  "mark_referenced_equipment st fbt eadd_navaid_uuids =
     eadd_navaid_uuids \<union>
     (\<Union>fuuid \<in> eadd_navaid_uuids.
        case map_of (fbt ''Navaid'') fuuid of
          None \<Rightarrow> {}
        | Some navaid \<Rightarrow> Set.filter (is_equipment fbt) (get_xlink_hrefs (st ! navaid)))"

text \<open>Step 13, lines 323 to 325.\<close>

definition collect_vertical_structures :: "catalog \<Rightarrow> belonging \<Rightarrow> belonging" where
  "collect_vertical_structures fbt collected =
     foldl (\<lambda>c item. if fst item \<notin> keys c
                      then AList.update (fst item) (''VerticalStructure'', snd item) c else c)
       collected (fbt ''VerticalStructure'')"

text \<open>
  Step 14, lines 330 to 340: the first node whose tag contains AirspaceTimeSlice decides
  (the loop breaks there), by the text of its designator child.
\<close>

definition airspace_selected :: "elem \<Rightarrow> bool" where
  "airspace_selected felem =
     (case first_desc (tag_contains ''AirspaceTimeSlice'') [felem] of
        None \<Rightarrow> False
      | Some child \<Rightarrow>
          (case find_child (aixm ''designator'') child of
             None \<Rightarrow> False
           | Some d \<Rightarrow>
               (case etext d of
                  None \<Rightarrow> False
                | Some t \<Rightarrow> t \<in> set AIRSPACE_DESIGNATORS)))"

definition collect_airspaces :: "store \<Rightarrow> catalog \<Rightarrow> belonging \<Rightarrow> belonging" where
  "collect_airspaces st fbt collected =
     foldl (\<lambda>c item. if fst item \<in> keys c then c
                      else if airspace_selected (st ! snd item)
                      then AList.update (fst item) (''Airspace'', snd item) c else c)
       collected (fbt ''Airspace'')"

text \<open>
  \<open>collect_eadd_features(features_by_type)\<close>, lines 203 to 342. The function has two
  \<open>return\<close> statements of different shapes: line 215 returns the dict alone, line 342
  returns the pair of the dict and the set.
\<close>

datatype collect_result = Only_dict belonging | Dict_and_set belonging "string set"

definition collect_eadd_features :: "store \<Rightarrow> catalog \<Rightarrow> collect_result" where
  "collect_eadd_features st fbt =
     (case map_of (fbt ''AirportHeliport'') EADD_UUID of
        None \<Rightarrow> Only_dict []
      | Some ahp \<Rightarrow>
          (let c10 = collect_airport_chain st fbt ahp;
               eadd_uuids_so_far = keys c10;
               s11 = collect_navaids st fbt eadd_uuids_so_far c10;
               s12 = collect_equipment st fbt (eadd_uuids_so_far \<union> snd s11) s11;
               eadd_navaid_uuids = mark_referenced_equipment st fbt (snd s12);
               c13 = collect_vertical_structures fbt (fst s12);
               c14 = collect_airspaces st fbt c13
           in Dict_and_set c14 eadd_navaid_uuids))"

section \<open>clone\_feature\_set\<close>

text \<open>
  \<open>generate_new_uuid()\<close> draws a random version 4 UUID. The model takes the sequence of
  the identifiers drawn during the run as the parameter \<open>uuids\<close> and threads the number
  of identifiers drawn so far. Lines 441 to 443 build the map:
\<close>

definition generate_new_uuid :: "(nat \<Rightarrow> string) \<Rightarrow> nat \<Rightarrow> string \<times> nat" where
  "generate_new_uuid uuids n = (uuids n, Suc n)"

definition build_uuid_map ::
  "(nat \<Rightarrow> string) \<Rightarrow> nat \<Rightarrow> belonging \<Rightarrow> (string \<times> string) list \<times> nat" where
  "build_uuid_map uuids n collected =
     foldl (\<lambda>acc item.
              (AList.update (fst item) (fst (generate_new_uuid uuids (snd acc))) (fst acc),
               snd (generate_new_uuid uuids (snd acc))))
       ([], n) collected"

definition navaid_types :: "string list" where
  "navaid_types = ''Navaid'' # NAVAID_EQUIPMENT_TYPES"

text \<open>
  The type-specific updates, lines 464 to 539: four \<open>if\<close> statements in a row, each
  acting on the copy.
\<close>

definition type_specific_updates :: "int \<Rightarrow> string \<Rightarrow> elem \<Rightarrow> elem" where
  "type_specific_updates index feat_type new_elem =
     (let e1 = (if feat_type = ''AirportHeliport''
                then map_first_in (tag_contains ''AirportHeliportTimeSlice'')
                       (airport_timeslice index) new_elem
                else new_elem);
          e2 = (if feat_type \<in> set navaid_types
                then map_first_below (tag_contains ''TimeSlice'')
                       (suffix_timeslice (suffix_of index)) e1
                else e1);
          e3 = (if feat_type = ''VerticalStructure''
                then map_first_below (tag_contains ''TimeSlice'')
                       (vs_timeslice (suffix_of index)) e2
                else e2);
          e4 = (if feat_type = ''Airspace''
                then map_first_below (tag_contains ''TimeSlice'')
                       (suffix_timeslice (suffix_of index)) e3
                else e3)
      in e4)"

text \<open>
  Lines 449 to 539: what the loop body does to the copy \<open>new_elem\<close> of one item.
  \<open>uuid_map[old_uuid]\<close> is a KeyError for a missing key, and \<open>update_feature_ids\<close> may
  raise.
\<close>

definition clone_steps ::
  "'f pyfloat \<Rightarrow> (string \<times> string) list \<Rightarrow> int \<Rightarrow> 'f \<times> 'f \<Rightarrow> 'f \<times> 'f \<Rightarrow> string set
     \<Rightarrow> string \<Rightarrow> string \<Rightarrow> elem \<Rightarrow> error + elem" where
  "clone_steps F uuid_map index offset offset_nav eadd_navaid_uuids old_uuid feat_type new_elem =
     (case map_of uuid_map old_uuid of
        None \<Rightarrow> Inl KeyError
      | Some new_uuid \<Rightarrow>
          (case update_feature_ids new_elem new_uuid of
             Inl err \<Rightarrow> Inl err
           | Inr e1 \<Rightarrow>
               (let e2 = update_xlink_refs e1 uuid_map;
                    e3 = (if feat_type \<in> set navaid_types \<and> old_uuid \<notin> eadd_navaid_uuids
                          then offset_all_coordinates F e2 (fst offset_nav) (snd offset_nav)
                          else offset_all_coordinates F e2 (fst offset) (snd offset))
                in Inr (type_specific_updates index feat_type e3))))"

text \<open>
  The body of the loop of lines 447 to 541 for one item of \<open>collected_features\<close>:
  \<open>copy.deepcopy\<close> allocates the copy, the steps above mutate it, and the pair of the
  type and the copy is appended to \<open>cloned\<close>.
\<close>

definition clone_one ::
  "'f pyfloat \<Rightarrow> (string \<times> string) list \<Rightarrow> int \<Rightarrow> 'f \<times> 'f \<Rightarrow> 'f \<times> 'f \<Rightarrow> string set
     \<Rightarrow> store \<Rightarrow> string \<times> string \<times> ref \<Rightarrow> error + (store \<times> string \<times> ref)" where
  "clone_one F uuid_map index offset offset_nav eadd_navaid_uuids st item =
     (let old_uuid = fst item; feat_type = fst (snd item); orig_elem = snd (snd item);
          st1 = fst (deepcopy st orig_elem); new_elem = snd (deepcopy st orig_elem)
      in case clone_steps F uuid_map index offset offset_nav eadd_navaid_uuids
                old_uuid feat_type (st1 ! new_elem) of
           Inl err \<Rightarrow> Inl err
         | Inr e \<Rightarrow> Inr (st1[new_elem := e], (feat_type, new_elem)))"

fun clone_loop ::
  "'f pyfloat \<Rightarrow> (string \<times> string) list \<Rightarrow> int \<Rightarrow> 'f \<times> 'f \<Rightarrow> 'f \<times> 'f \<Rightarrow> string set
     \<Rightarrow> store \<Rightarrow> belonging \<Rightarrow> error + (store \<times> (string \<times> ref) list)" where
  "clone_loop F uuid_map index offset offset_nav lr st [] = Inr (st, [])"
| "clone_loop F uuid_map index offset offset_nav lr st (item # items) =
     (case clone_one F uuid_map index offset offset_nav lr st item of
        Inl err \<Rightarrow> Inl err
      | Inr r \<Rightarrow>
          (case clone_loop F uuid_map index offset offset_nav lr (fst r) items of
             Inl err \<Rightarrow> Inl err
           | Inr rs \<Rightarrow> Inr (fst rs, snd r # snd rs)))"

text \<open>
  \<open>clone_feature_set\<close>, lines 422 to 543. It returns the store, the list of
  \<open>(type_name, cloned_element)\<close>, the new identifier of the airport and the number of
  identifiers drawn. The last line reads \<open>uuid_map[EADD_UUID]\<close>, a KeyError when the
  airport is not in \<open>collected_features\<close>.
\<close>

definition clone_feature_set ::
  "'f pyfloat \<Rightarrow> (nat \<Rightarrow> string) \<Rightarrow> store \<Rightarrow> nat \<Rightarrow> belonging \<Rightarrow> int \<Rightarrow> int \<Rightarrow> 'f \<Rightarrow> string set
     \<Rightarrow> error + (store \<times> (string \<times> ref) list \<times> string \<times> nat)" where
  "clone_feature_set F uuids st n collected_features index grid_cols distance_nm eadd_navaid_uuids =
     (case calculate_grid_offset F index grid_cols distance_nm of
        Inl err \<Rightarrow> Inl err
      | Inr offset \<Rightarrow>
          (case calculate_grid_offset F index grid_cols
                  (fdiv F distance_nm (from_literal F 10)) of
             Inl err \<Rightarrow> Inl err
           | Inr offset_nav \<Rightarrow>
               (let m = build_uuid_map uuids n collected_features
                in case clone_loop F (fst m) index offset offset_nav eadd_navaid_uuids st
                          collected_features of
                     Inl err \<Rightarrow> Inl err
                   | Inr r \<Rightarrow>
                       (case map_of (fst m) EADD_UUID of
                          None \<Rightarrow> Inl KeyError
                        | Some new_ahp_uuid \<Rightarrow> Inr (fst r, snd r, new_ahp_uuid, snd m)))))"

section \<open>main\<close>

text \<open>
  The part of \<open>main\<close> between the catalog and the output documents, lines 654 and 677
  to 713, without the printing. Line 677 unpacks the result of
  \<open>collect_eadd_features\<close> into two names: unpacking a dict iterates its keys, so a
  dict that does not have exactly two keys raises ValueError there, and one with two
  keys binds \<open>collected\<close> to a string, on which \<open>collected.items()\<close> in line 681 raises
  AttributeError. The loop of lines 702 to 713 runs \<open>count\<close> times.
\<close>

fun generate_copies ::
  "'f pyfloat \<Rightarrow> (nat \<Rightarrow> string) \<Rightarrow> belonging \<Rightarrow> string set \<Rightarrow> int \<Rightarrow> 'f
     \<Rightarrow> store \<Rightarrow> nat \<Rightarrow> int \<Rightarrow> nat \<Rightarrow> error + (store \<times> (string \<times> ref) list list)" where
  "generate_copies F uuids collected lr grid_cols distance_nm st n i 0 = Inr (st, [])"
| "generate_copies F uuids collected lr grid_cols distance_nm st n i (Suc k) =
     (case calculate_grid_offset F i grid_cols distance_nm of
        Inl err \<Rightarrow> Inl err
      | Inr off \<Rightarrow>
          (case clone_feature_set F uuids st n collected i grid_cols distance_nm lr of
             Inl err \<Rightarrow> Inl err
           | Inr r \<Rightarrow>
               (case generate_copies F uuids collected lr grid_cols distance_nm
                       (fst r) (snd (snd (snd r))) (i + 1) k of
                  Inl err \<Rightarrow> Inl err
                | Inr rs \<Rightarrow> Inr (fst rs, fst (snd r) # snd rs))))"

definition main ::
  "'f pyfloat \<Rightarrow> (nat \<Rightarrow> string) \<Rightarrow> store \<Rightarrow> catalog \<Rightarrow> int \<Rightarrow> int \<Rightarrow> 'f \<Rightarrow> int
     \<Rightarrow> error + (store \<times> (string \<times> ref) list list)" where
  "main F uuids st features_by_type grid_rows grid_cols distance_nm count_arg =
     (let count = min count_arg (grid_rows * grid_cols)
      in case collect_eadd_features st features_by_type of
           Only_dict d \<Rightarrow> (if length d = 2 then Inl AttributeError else Inl ValueError)
         | Dict_and_set collected eadd_navaid_uuids \<Rightarrow>
             generate_copies F uuids collected eadd_navaid_uuids grid_cols distance_nm
               st 0 0 (nat count))"

section \<open>Auxiliary definitions for the statements\<close>

text \<open>
  A token, as \<open>split\<close> returns it: not empty and free of whitespace.
\<close>

definition token_ok :: "string \<Rightarrow> bool" where
  "token_ok t = (t \<noteq> [] \<and> (\<forall>c \<in> set t. \<not> py_isspace c))"

text \<open>
  A float implementation to run the functions on concrete inputs: arithmetic without
  rounding, and text conversions that read and write whole numbers.
\<close>

definition whole_float :: "real pyfloat" where
  "whole_float =
     exact_float (\<lambda>s. map_option real_of_int (py_int s)) (\<lambda>x. str_of_int \<lfloor>x\<rfloor>)"

text \<open>The catalog of a document with no feature of any type.\<close>

definition no_features :: catalog where
  "no_features = (\<lambda>feat_type. [])"

text \<open>
  A small document for concrete runs: a feature with its identifier and one TimeSlice,
  whose properties are text fields and links.
\<close>

definition link :: "string \<Rightarrow> string \<Rightarrow> elem" where
  "link name target = Elem (Some (aixm name)) [(XLINK_HREF, ''urn:uuid:'' @ target)] None None []"

definition field :: "string \<Rightarrow> string \<Rightarrow> elem" where
  "field name value = Elem (Some (aixm name)) [] (Some value) None []"

definition feature :: "string \<Rightarrow> string \<Rightarrow> elem list \<Rightarrow> elem" where
  "feature name ident props =
     Elem (Some (aixm name)) [(GML_ID, ''uuid.'' @ ident)] None None
       [Elem (Some (gml ''identifier'')) [] (Some ident) None [],
        Elem (Some (aixm ''timeSlice'')) [] None None
          [Elem (Some (aixm (name @ ''TimeSlice''))) [(GML_ID, ''ts1'')] None None props]]"

definition pos :: "string \<Rightarrow> elem" where
  "pos value = Elem (Some (gml ''pos'')) [] (Some value) None []"

text \<open>
  The document: the airport, a Navaid of the airport with its DME, a Navaid that refers
  to nothing, and a tower with a hosted unit that is not part of the document.
\<close>

definition ex_airport :: elem where
  "ex_airport = feature ''AirportHeliport'' EADD_UUID
     [field ''designator'' ''EADD'', field ''name'' ''DONLON/INTL'', pos ''52 -32'']"

definition ex_navaid :: elem where
  "ex_navaid = feature ''Navaid'' ''n1''
     [field ''designator'' ''BOR'', link ''servedAirport'' EADD_UUID,
      link ''theNavaidEquipment'' ''e1'', pos ''52 -32'']"

definition ex_dme :: elem where
  "ex_dme = feature ''DME'' ''e1'' [field ''designator'' ''BOR'', pos ''52 -32'']"

definition ex_far_navaid :: elem where
  "ex_far_navaid = feature ''Navaid'' ''n2'' [field ''designator'' ''WOB'', pos ''52 -32'']"

definition ex_tower :: elem where
  "ex_tower = feature ''VerticalStructure'' ''v1''
     [field ''name'' ''TOWER'', link ''hostedUnit'' ''x9'', pos ''52 -32'']"

definition ex_store :: store where
  "ex_store = [ex_airport, ex_navaid, ex_dme, ex_far_navaid, ex_tower]"

definition ex_catalog :: catalog where
  "ex_catalog feat_type =
     (if feat_type = ''AirportHeliport'' then [(EADD_UUID, 0)]
      else if feat_type = ''Navaid'' then [(''n1'', 1), (''n2'', 3)]
      else if feat_type = ''DME'' then [(''e1'', 2)]
      else if feat_type = ''VerticalStructure'' then [(''v1'', 4)]
      else [])"

text \<open>The belonging set and the marked set of that document, and the identifiers drawn.\<close>

definition ex_collected :: belonging where
  "ex_collected =
     [(EADD_UUID, ''AirportHeliport'', 0), (''n1'', ''Navaid'', 1), (''n2'', ''Navaid'', 3),
      (''e1'', ''DME'', 2), (''v1'', ''VerticalStructure'', 4)]"

definition ex_marked :: "string set" where
  "ex_marked = {''n1'', ''e1''}"

definition ex_uuids :: "nat \<Rightarrow> string" where
  "ex_uuids k = ''00000000-0000-4000-8000-00000000000'' @ [digit_char k]"

text \<open>Every element that the belonging set refers to is in the store.\<close>

definition refs_in_store :: "store \<Rightarrow> belonging \<Rightarrow> bool" where
  "refs_in_store st collected = list_all (\<lambda>item. snd (snd item) < length st) collected"

text \<open>
  \<open>e is None or not e.text\<close>: the sub-field is absent, or it has no text.
\<close>

definition missing_or_empty :: "elem option \<Rightarrow> bool" where
  "missing_or_empty e =
     (case e of None \<Rightarrow> True | Some el \<Rightarrow> etext el = None \<or> etext el = Some [])"

text \<open>
  The shape of an element: its tags, without attributes and text. The steps of the
  clone engine other than the removal of properties keep it.
\<close>

datatype shape = Shape "string option" "shape list"

fun shape_of :: "elem \<Rightarrow> shape" where
  "shape_of (Elem t a x y cs) = Shape t (map shape_of cs)"

section \<open>Splitting and joining\<close>

lemma split_ws_nospace:
  "\<forall>c \<in> set t. \<not> py_isspace c \<Longrightarrow> split_ws cur (t @ s) = split_ws (cur @ t) s"
  by (induction t arbitrary: cur) auto

lemma split_ws_sep:
  "py_isspace w \<Longrightarrow> split_ws cur (s @ w # r) = split_ws cur s @ split_ws [] r"
  by (induction s arbitrary: cur) auto

lemma py_split_sep:
  "py_isspace w \<Longrightarrow> py_split (a @ w # b) = py_split a @ py_split b"
  by (simp add: py_split_def split_ws_sep)

lemma split_ws_tokens:
  "\<forall>c \<in> set cur. \<not> py_isspace c \<Longrightarrow>
     \<forall>t \<in> set (split_ws cur s). t \<noteq> [] \<and> (\<forall>c \<in> set t. \<not> py_isspace c)"
proof (induction s arbitrary: cur)
  case Nil
  then show ?case by simp
next
  case (Cons a s)
  show ?case
  proof (cases "py_isspace a")
    case True
    have "\<forall>t \<in> set (split_ws [] s). t \<noteq> [] \<and> (\<forall>c \<in> set t. \<not> py_isspace c)"
      using Cons.IH [of "[]"] by simp
    with True Cons.prems show ?thesis by simp
  next
    case False
    with Cons.prems have "\<forall>c \<in> set (cur @ [a]). \<not> py_isspace c" by simp
    from Cons.IH [OF this] False show ?thesis by simp
  qed
qed

lemma py_split_tokens:
  "t \<in> set (py_split s) \<Longrightarrow> t \<noteq> [] \<and> (\<forall>c \<in> set t. \<not> py_isspace c)"
  using split_ws_tokens [of "[]" s] by (simp add: py_split_def)

lemma py_split_token:
  "t \<noteq> [] \<Longrightarrow> \<forall>c \<in> set t. \<not> py_isspace c \<Longrightarrow> py_split t = [t]"
  using split_ws_nospace [of t "[]" "[]"] by (simp add: py_split_def)

lemma split_ws_trailing:
  "\<forall>c \<in> set ws. py_isspace c \<Longrightarrow> split_ws cur (s @ ws) = split_ws cur s"
proof (induction s arbitrary: cur)
  case Nil
  then show ?case by (induction ws arbitrary: cur) auto
next
  case (Cons a s)
  then show ?case by auto
qed

lemma py_split_dropWhile: "py_split (dropWhile py_isspace s) = py_split s"
  by (induction s) (auto simp: py_split_def)

lemma py_split_strip: "py_split (py_strip s) = py_split s"
proof -
  let ?d = "dropWhile py_isspace s"
  have "?d = rev (dropWhile py_isspace (rev ?d)) @ rev (takeWhile py_isspace (rev ?d))"
    by (metis rev_append rev_rev_ident takeWhile_dropWhile_id)
  moreover have "\<forall>c \<in> set (rev (takeWhile py_isspace (rev ?d))). py_isspace c"
    by (auto dest: set_takeWhileD)
  ultimately have "py_split ?d = py_split (rev (dropWhile py_isspace (rev ?d)))"
    unfolding py_split_def by (metis split_ws_trailing)
  then show ?thesis by (simp add: py_strip_def py_split_dropWhile)
qed

lemma py_split_nil: "py_split [] = []" by (simp add: py_split_def)

lemma py_split_join:
  "py_isspace w \<Longrightarrow> py_split (py_join [w] ls) = concat (map py_split ls)"
proof (induction ls rule: induct_list012)
  case 1 then show ?case by (simp add: py_split_nil)
next
  case (2 x) then show ?case by simp
next
  case (3 x y zs)
  then show ?case by (simp add: py_split_sep)
qed

lemma py_split_blank: "py_split (a @ CHR '' '' # b) = py_split a @ py_split b"
  by (rule py_split_sep) (simp add: py_isspace_def)

lemma wrap_step_tokens:
  "concat (map py_split (fst (wrap_step m st p))) @ py_split (snd (wrap_step m st p)) =
     concat (map py_split (fst st)) @ py_split (snd st) @ py_split p"
proof (cases "snd st = []")
  case True
  then show ?thesis by (simp add: wrap_step_def Let_def py_split_nil)
next
  case False
  then show ?thesis
    by (cases "m < int (length (snd st @ '' '' @ p))")
       (simp_all add: wrap_step_def Let_def py_split_blank del: append_assoc)
qed

lemma wrap_fold_tokens:
  "concat (map py_split (fst (foldl (wrap_step m) st ps))) @
     py_split (snd (foldl (wrap_step m) st ps)) =
   concat (map py_split (fst st)) @ py_split (snd st) @ concat (map py_split ps)"
proof (induction ps arbitrary: st)
  case Nil
  then show ?case by simp
next
  case (Cons p ps)
  show ?case
    using Cons.IH [of "wrap_step m st p"] wrap_step_tokens [of m st p] by simp
qed

lemma wrap_lines_tokens:
  "concat (map py_split (wrap_lines m ps)) = concat (map py_split ps)"
proof (cases "snd (foldl (wrap_step m) ([], []) ps) = []")
  case True
  with wrap_fold_tokens [of m "([], [])" ps] show ?thesis
    by (simp add: wrap_lines_def Let_def py_split_nil)
next
  case False
  with wrap_fold_tokens [of m "([], [])" ps] show ?thesis
    by (simp add: wrap_lines_def Let_def py_split_nil)
qed

lemma offset_pos_list_tokens:
  "py_split (offset_pos_list F s lat lon m) =
     concat (map py_split (coord_pairs F (py_split s) lat lon))"
proof -
  have nl: "py_isspace (CHR 0x0A)" by (simp add: py_isspace_def)
  show ?thesis
    by (simp add: offset_pos_list_def Let_def py_split_join [OF nl] wrap_lines_tokens
        py_split_strip)
qed




lemma py_split_pair:
  "token_ok a \<Longrightarrow> token_ok b \<Longrightarrow> py_split (a @ CHR '' '' # b) = [a, b]"
  by (simp add: py_split_blank py_split_token token_ok_def)

lemma coord_pairs_head:
  assumes "\<forall>x. token_ok (str_of_float F x)" "token_ok a" "token_ok b"
  shows "concat (map py_split (coord_pairs F (a # b # rest) lat lon)) =
     (case float_of_str F a of
        None \<Rightarrow> [a, b]
      | Some x \<Rightarrow>
          (case float_of_str F b of
             None \<Rightarrow> [a, b]
           | Some y \<Rightarrow> [str_of_float F (fadd F x lat), str_of_float F (fadd F y lon)]))
     @ concat (map py_split (coord_pairs F rest lat lon))"
  using assms by (simp add: py_split_pair split: option.splits)

lemma coord_pairs_length:
  assumes "\<forall>x. token_ok (str_of_float F x)"
  shows "\<forall>t \<in> set vals. token_ok t \<Longrightarrow>
     length (concat (map py_split (coord_pairs F vals lat lon))) = 2 * (length vals div 2)"
proof (induction vals rule: induct_list012)
  case 1
  then show ?case by simp
next
  case (2 a)
  then show ?case by simp
next
  case (3 a b rest)
  then have ab: "token_ok a" "token_ok b" and r: "\<forall>t \<in> set rest. token_ok t" by simp_all
  have "length (concat (map py_split (coord_pairs F rest lat lon))) = 2 * (length rest div 2)"
    using 3(1) r by simp
  then show ?case
    unfolding coord_pairs_head [OF assms ab]
    by (simp split: option.splits)
qed

lemma coord_pairs_nth:
  assumes "\<forall>x. token_ok (str_of_float F x)"
  shows "\<forall>t \<in> set vals. token_ok t \<Longrightarrow> k < length vals div 2 \<Longrightarrow>
     take 2 (drop (2 * k) (concat (map py_split (coord_pairs F vals lat lon)))) =
     (case float_of_str F (vals ! (2 * k)) of
        None \<Rightarrow> [vals ! (2 * k), vals ! (2 * k + 1)]
      | Some x \<Rightarrow>
          (case float_of_str F (vals ! (2 * k + 1)) of
             None \<Rightarrow> [vals ! (2 * k), vals ! (2 * k + 1)]
           | Some y \<Rightarrow> [str_of_float F (fadd F x lat), str_of_float F (fadd F y lon)]))"
proof (induction vals arbitrary: k rule: induct_list012)
  case 1
  then show ?case by simp
next
  case (2 a)
  then show ?case by simp
next
  case (3 a b rest)
  from "3.prems" have ab: "token_ok a" "token_ok b" and r: "\<forall>t \<in> set rest. token_ok t" by simp_all
  show ?case
  proof (cases k)
    case 0
    then show ?thesis
      unfolding coord_pairs_head [OF assms ab]
      by (simp split: option.splits)
  next
    case (Suc j)
    with "3.prems" have j: "j < length rest div 2" by simp
    have "take 2 (drop (2 * j) (concat (map py_split (coord_pairs F rest lat lon)))) =
     (case float_of_str F (rest ! (2 * j)) of
        None \<Rightarrow> [rest ! (2 * j), rest ! (2 * j + 1)]
      | Some x \<Rightarrow>
          (case float_of_str F (rest ! (2 * j + 1)) of
             None \<Rightarrow> [rest ! (2 * j), rest ! (2 * j + 1)]
           | Some y \<Rightarrow> [str_of_float F (fadd F x lat), str_of_float F (fadd F y lon)]))"
      using "3.IH"(1) [OF r j] .
    then show ?thesis
      unfolding coord_pairs_head [OF assms ab] Suc
      by (simp split: option.splits)
  qed
qed


section \<open>The text of integers\<close>

lemma digit_char_digit: "digit_char d \<in> set ''0123456789''"
proof -
  have "d mod 10 < length ''0123456789''" by simp
  then show ?thesis unfolding digit_char_def by (rule nth_mem)
qed

lemma digit_not_space: "c \<in> set ''0123456789'' \<Longrightarrow> \<not> py_isspace c"
  by (auto simp: py_isspace_def)

lemma str_of_nat_digits: "str_of_nat n \<noteq> [] \<and> set (str_of_nat n) \<subseteq> set ''0123456789''"
proof (induction n rule: str_of_nat.induct)
  case (1 n)
  show ?case
  proof (cases "n < 10")
    case True
    then show ?thesis using digit_char_digit [of n] by (subst (1 2) str_of_nat.simps) simp
  next
    case False
    with 1 have "set (str_of_nat (n div 10)) \<subseteq> set ''0123456789''" by simp
    with False show ?thesis using digit_char_digit [of n]
      by (subst (1 2) str_of_nat.simps) simp
  qed
qed

lemma token_ok_str_of_nat: "token_ok (str_of_nat n)"
  using str_of_nat_digits [of n] digit_not_space by (auto simp: token_ok_def)

lemma token_ok_str_of_int: "token_ok (str_of_int i)"
  using token_ok_str_of_nat by (auto simp: str_of_int_def token_ok_def py_isspace_def)

lemma whole_float_repr: "\<forall>x. token_ok (str_of_float whole_float x)"
  by (simp add: whole_float_def exact_float_def token_ok_str_of_int)

text \<open>
  Claim C10. For a coordinate list of \<open>n\<close> whitespace-separated tokens,
  \<open>offset_pos_list\<close> returns a string of exactly \<open>2 * (n div 2)\<close> tokens: pair \<open>k\<close> of
  the result is the shifted pair when both tokens of pair \<open>k\<close> of the input parse as
  floats, and the two tokens verbatim otherwise. For an odd \<open>n\<close> the last token is
  dropped. The hypothesis says that the text of a float is one token.
\<close>

theorem offset_pos_list_drops_unpaired:
  assumes "\<forall>x. token_ok (str_of_float F x)"
  shows "length (py_split (offset_pos_list F s lat lon m)) = 2 * (length (py_split s) div 2)
    \<and> (odd (length (py_split s)) \<longrightarrow>
         length (py_split (offset_pos_list F s lat lon m)) = length (py_split s) - 1)
    \<and> (\<forall>k < length (py_split s) div 2.
         take 2 (drop (2 * k) (py_split (offset_pos_list F s lat lon m))) =
           (case float_of_str F (py_split s ! (2 * k)) of
              None \<Rightarrow> [py_split s ! (2 * k), py_split s ! (2 * k + 1)]
            | Some x \<Rightarrow>
                (case float_of_str F (py_split s ! (2 * k + 1)) of
                   None \<Rightarrow> [py_split s ! (2 * k), py_split s ! (2 * k + 1)]
                 | Some y \<Rightarrow> [str_of_float F (fadd F x lat), str_of_float F (fadd F y lon)])))"
proof -
  have toks: "\<forall>t \<in> set (py_split s). token_ok t"
    using py_split_tokens [of _ s] by (auto simp: token_ok_def)
  have len: "length (py_split (offset_pos_list F s lat lon m)) = 2 * (length (py_split s) div 2)"
    unfolding offset_pos_list_tokens by (rule coord_pairs_length [OF assms toks])
  have "odd (length (py_split s)) \<longrightarrow> 2 * (length (py_split s) div 2) = length (py_split s) - 1"
    by presburger
  with len have oddcase: "odd (length (py_split s)) \<longrightarrow>
         length (py_split (offset_pos_list F s lat lon m)) = length (py_split s) - 1"
    by simp
  have nth: "\<forall>k < length (py_split s) div 2.
         take 2 (drop (2 * k) (py_split (offset_pos_list F s lat lon m))) =
           (case float_of_str F (py_split s ! (2 * k)) of
              None \<Rightarrow> [py_split s ! (2 * k), py_split s ! (2 * k + 1)]
            | Some x \<Rightarrow>
                (case float_of_str F (py_split s ! (2 * k + 1)) of
                   None \<Rightarrow> [py_split s ! (2 * k), py_split s ! (2 * k + 1)]
                 | Some y \<Rightarrow> [str_of_float F (fadd F x lat), str_of_float F (fadd F y lon)]))"
    unfolding offset_pos_list_tokens using coord_pairs_nth [OF assms toks] by blast
  from len oddcase nth show ?thesis by blast
qed

section \<open>A run of offset\_pos\_list\<close>

lemma py_split_example: "py_split ''1 x 3 4 5'' = [''1'', ''x'', ''3'', ''4'', ''5'']"
  by (simp add: py_split_def py_isspace_def)

lemma ex_out: "offset_pos_list whole_float ''1 x 3 4 5'' 10 20 200 = ''1 x 13 24''"
  by (simp add: offset_pos_list_def py_split_strip py_split_example whole_float_def exact_float_def
      py_int_def py_strip_def py_isspace_def Let_def nat_of_digits_def digit_val_def is_digit_def
      wrap_lines_def wrap_step_def str_of_int_def str_of_nat.simps digit_char_def)

theorem offset_pos_list_drops_unpaired_witness:
  "py_split ''1 x 3 4 5'' = [''1'', ''x'', ''3'', ''4'', ''5'']
   \<and> offset_pos_list whole_float ''1 x 3 4 5'' 10 20 200 = ''1 x 13 24''
   \<and> length (py_split (offset_pos_list whole_float ''1 x 3 4 5'' 10 20 200)) = 4"
  using offset_pos_list_drops_unpaired [OF whole_float_repr, of "''1 x 3 4 5''" 10 20 200]
  by (simp add: py_split_example ex_out)

section \<open>The grid offset\<close>

subsection \<open>Rounding\<close>

text \<open>
  \<open>ilog2\<close> is the binary exponent: the only \<open>e\<close> with \<open>2 ^ e \<le> q < 2 ^ (e + 1)\<close>. So the
  rounding of a magnitude can be computed from any such \<open>e\<close>, and the rounded significand
  is the integer within one half of the scaled magnitude.
\<close>

lemma pow2_powi: "pow2 e = 2 powi e"
  by (simp add: pow2_def power_int_def inverse_eq_divide power_one_over)

lemma pow2_pos: "0 < pow2 e"
  by (simp add: pow2_powi zero_less_power_int)

lemma pow2_mono: "a \<le> b \<Longrightarrow> pow2 a \<le> pow2 b"
  by (simp add: pow2_powi power_int_increasing)

lemma pow2_add: "pow2 (a + b) = pow2 a * pow2 b"
  by (simp add: pow2_powi power_int_add)

lemma pow2_diff: "pow2 (a - b) = pow2 a / pow2 b"
  by (simp add: pow2_powi power_int_diff)

lemma pow2_nat: "0 \<le> e \<Longrightarrow> pow2 e = of_int (2 ^ nat e)"
  by (simp add: pow2_def)

lemma ilog2_unique:
  assumes "pow2 e \<le> q" "q < pow2 (e + 1)" "pow2 e' \<le> q" "q < pow2 (e' + 1)"
  shows "e = e'"
proof (rule ccontr)
  assume "e \<noteq> e'"
  then consider "e + 1 \<le> e'" | "e' + 1 \<le> e" by linarith
  then show False
  proof cases
    case 1
    then have "pow2 (e + 1) \<le> pow2 e'" by (rule pow2_mono)
    with assms show False by simp
  next
    case 2
    then have "pow2 (e' + 1) \<le> pow2 e" by (rule pow2_mono)
    with assms show False by simp
  qed
qed

lemma bitlen_rat:
  assumes "0 < a"
  shows "pow2 (bitlen a - 1) \<le> of_int a" "of_int a < pow2 (bitlen a)"
proof -
  from assms have b: "2 ^ nat (bitlen a - 1) \<le> a" "a < 2 ^ nat (bitlen a)"
    using bitlen_bounds [of a] by simp_all
  from assms have p: "0 < bitlen a"
    using bitlen_nonneg [of a] bitlen_eq_zero_iff [of a] by linarith
  then have "pow2 (bitlen a - 1) = of_int (2 ^ nat (bitlen a - 1))"
    by (simp add: pow2_nat)
  also have "\<dots> \<le> of_int a" using b(1) by (simp only: of_int_le_iff)
  finally show "pow2 (bitlen a - 1) \<le> of_int a" .
  have "(of_int a :: rat) < of_int (2 ^ nat (bitlen a))" using b(2) by (simp only: of_int_less_iff)
  also have "\<dots> = pow2 (bitlen a)" using p by (simp add: pow2_nat)
  finally show "of_int a < pow2 (bitlen a)" .
qed

lemma ilog2_bounds:
  assumes "0 < q"
  shows "pow2 (ilog2 q) \<le> q \<and> q < pow2 (ilog2 q + 1)"
proof -
  obtain a b where ab: "quotient_of q = (a, b)" by (cases "quotient_of q")
  then have b: "0 < b" and q: "q = of_int a / of_int b"
    by (simp_all add: quotient_of_denom_pos quotient_of_div)
  with assms have a: "0 < a" by (simp add: zero_less_divide_iff)
  define k where "k = bitlen a - bitlen b"
  note A = bitlen_rat [OF a] and B = bitlen_rat [OF b]
  have bq: "(0::rat) < of_int b" using b by simp
  have "pow2 (k - 1) = pow2 (bitlen a - 1) / pow2 (bitlen b)"
    by (simp add: k_def pow2_diff [symmetric]) (simp add: algebra_simps)
  also have "\<dots> \<le> of_int a / pow2 (bitlen b)"
    using A(1) pow2_pos [of "bitlen b"] by (simp add: divide_right_mono)
  also have "\<dots> < of_int a / of_int b"
    using B(2) a bq by (simp add: divide_strict_left_mono)
  finally have lo: "pow2 (k - 1) < q" by (simp add: q)
  have "q = of_int a / of_int b" by (rule q)
  also have "\<dots> < pow2 (bitlen a) / of_int b"
    using A(2) bq by (simp add: divide_strict_right_mono)
  also have "\<dots> \<le> pow2 (bitlen a) / pow2 (bitlen b - 1)"
    using B(1) pow2_pos [of "bitlen b - 1"] pow2_pos [of "bitlen a"] by (simp add: divide_left_mono)
  also have "\<dots> = pow2 (k + 1)"
    by (simp add: k_def pow2_diff [symmetric]) (simp add: algebra_simps)
  finally have hi: "q < pow2 (k + 1)" .
  have i: "ilog2 q = (if pow2 k \<le> q then k else k - 1)"
    by (simp add: ilog2_def ab k_def Let_def)
  show ?thesis
  proof (cases "pow2 k \<le> q")
    case True
    with hi i show ?thesis by simp
  next
    case False
    with lo i show ?thesis by simp
  qed
qed

lemma ilog2_eq:
  assumes "pow2 e \<le> q" "q < pow2 (e + 1)"
  shows "ilog2 q = e"
proof -
  from assms(1) pow2_pos [of e] have "0 < q" by simp
  then have "pow2 (ilog2 q) \<le> q \<and> q < pow2 (ilog2 q + 1)" by (rule ilog2_bounds)
  then show ?thesis using assms by (auto intro: ilog2_unique)
qed

lemma round_mag_eq:
  assumes "pow2 e \<le> q" "q < pow2 (e + 1)"
  shows "round_mag q =
     (let ulp = pow2 (max e (- 1022) - 52);
          r = of_int (round_half_even (q / ulp)) * ulp
      in if pow2 1024 \<le> r then None else Some r)"
proof -
  from assms(1) pow2_pos [of e] have "q \<noteq> 0" by simp
  then show ?thesis by (simp add: round_mag_def ilog2_eq [OF assms] Let_def)
qed

lemma round_half_even_near:
  assumes "\<bar>q - of_int m\<bar> < 1 / 2"
  shows "round_half_even q = m"
proof (cases "of_int m \<le> q")
  case True
  with assms have "\<lfloor>q\<rfloor> = m" by (simp add: floor_eq_iff)
  with assms True show ?thesis by (simp add: round_half_even_def Let_def)
next
  case False
  with assms have "\<lfloor>q\<rfloor> = m - 1" by (simp add: floor_eq_iff)
  with assms False show ?thesis by (simp add: round_half_even_def Let_def)
qed

lemma round_mag_near:
  assumes "pow2 e \<le> q" "q < pow2 (e + 1)"
    and "\<bar>q / pow2 (max e (- 1022) - 52) - of_int m\<bar> < 1 / 2"
    and "of_int m * pow2 (max e (- 1022) - 52) < pow2 1024"
  shows "round_mag q = Some (of_int m * pow2 (max e (- 1022) - 52))"
  using assms(4) by (simp add: round_mag_eq [OF assms(1,2)] round_half_even_near [OF assms(3)] Let_def)

subsection \<open>The constants and the example in binary64\<close>

lemma lit_1: "b64_of_literal 1 = Finite False 1"
  using round_mag_near [of 0 1 4503599627370496]
  by (simp add: b64_of_literal_def rnd_def pow2_def)

lemma lit_60: "b64_of_literal 60 = Finite False 60"
  using round_mag_near [of 5 60 8444249301319680]
  by (simp add: b64_of_literal_def rnd_def pow2_def)

lemma lit_6157: "b64_of_literal (6157 / 10000) = Finite False (5545732581144029 / 9007199254740992)"
  using round_mag_near [of "-1" "6157 / 10000" 5545732581144029]
  by (simp add: b64_of_literal_def rnd_def pow2_def)

lemma int_1: "b64_of_int 1 = Some (Finite False 1)"
  using round_mag_near [of 0 1 4503599627370496]
  by (simp add: b64_of_int_def pow2_def)

lemma int_2: "b64_of_int 2 = Some (Finite False 2)"
  using round_mag_near [of 1 2 4503599627370496]
  by (simp add: b64_of_int_def pow2_def)

lemma mul_60_6157:
  "b64_mul (Finite False 60) (Finite False (5545732581144029 / 9007199254740992)) =
     Finite False (5199124294822527 / 140737488355328)"
  using round_mag_near [of 5 "60 * (5545732581144029 / 9007199254740992)" 5199124294822527]
  by (simp add: rnd_def pow2_def b64_mul.simps)

lemma lat_per_nm:
  "b64_div (b64_of_literal 1) (b64_of_literal 60) =
     Finite False (4803839602528529 / 288230376151711744)"
  using round_mag_near [of "-6" "1 / 60" 4803839602528529]
  by (simp add: lit_1 lit_60 rnd_def pow2_def b64_div.simps)

lemma lon_per_nm:
  "b64_div (b64_of_literal 1) (b64_mul (b64_of_literal 60) (b64_of_literal (6157 / 10000))) =
     Finite False (1950560176436791 / 72057594037927936)"
  using round_mag_near [of "-6" "1 / (5199124294822527 / 140737488355328)" 7802240705747164]
  by (simp add: lit_1 lit_60 lit_6157 mul_60_6157 rnd_def pow2_def b64_div.simps)

lemma mul_1_30: "b64_mul (Finite False 1) (Finite False 30) = Finite False 30"
  using round_mag_near [of 4 30 8444249301319680]
  by (simp add: rnd_def pow2_def b64_mul.simps)

lemma mul_2_30: "b64_mul (Finite False 2) (Finite False 30) = Finite False 60"
  using round_mag_near [of 5 60 8444249301319680]
  by (simp add: rnd_def pow2_def b64_mul.simps)


lemma mul_60_lat:
  "b64_mul (Finite False 60) (Finite False (4803839602528529 / 288230376151711744)) =
     Finite False 1"
  using round_mag_near [of "-1" "60 * (4803839602528529 / 288230376151711744)" 9007199254740992]
  by (simp add: rnd_def pow2_def b64_mul.simps)

lemma mul_30_lon:
  "b64_mul (Finite False 30) (Finite False (1950560176436791 / 72057594037927936)) =
     Finite False (3657300330818983 / 4503599627370496)"
  using round_mag_near [of "-1" "30 * (1950560176436791 / 72057594037927936)" 7314600661637966]
  by (simp add: rnd_def pow2_def b64_mul.simps)


lemma calculate_grid_offset_b64:
  assumes "grid_cols \<noteq> 0"
    and "b64_of_int (index div grid_cols) = Some row"
    and "b64_of_int (index mod grid_cols) = Some col"
  shows "calculate_grid_offset (binary64_float p r) index grid_cols d =
     Inr (b64_mul (b64_mul row d) (Finite False (4803839602528529 / 288230376151711744)),
          b64_mul (b64_mul col d) (Finite False (1950560176436791 / 72057594037927936)))"
  using assms
  by (simp add: calculate_grid_offset_def binary64_float_def Let_def lat_per_nm lon_per_nm)


lemma grid_offset_13_6_30:
  "calculate_grid_offset (binary64_float p r) 13 6 (Finite False 30) =
     Inr (Finite False 1, Finite False (3657300330818983 / 4503599627370496))"
  using calculate_grid_offset_b64 [of 6 13 "Finite False 2" "Finite False 1" p r "Finite False 30"]
  by (simp add: int_1 int_2 mul_1_30 mul_2_30 mul_60_lat mul_30_lon)




section \<open>A catalog without the airport\<close>

lemma collect_without_airport:
  "map_of (fbt ''AirportHeliport'') EADD_UUID = None \<Longrightarrow>
     collect_eadd_features st fbt = Only_dict []"
  by (simp add: collect_eadd_features_def)

lemma main_without_airport:
  "map_of (fbt ''AirportHeliport'') EADD_UUID = None \<Longrightarrow>
     main F uuids st fbt grid_rows grid_cols distance_nm count_arg = Inl ValueError"
  by (simp add: main_def collect_without_airport)

text \<open>
  Claim C2. When \<open>EADD_UUID\<close> is not a key of the AirportHeliport dict,
  \<open>collect_eadd_features\<close> returns the empty dict alone (line 215), not the pair that
  line 342 returns, and the unpacking in line 677 of \<open>main\<close> raises ValueError: the
  caller does not see zero clones, it sees the exception. Evaluated on the empty catalog.
\<close>

theorem main_raises_without_airport:
  "collect_eadd_features [] no_features = Only_dict []
   \<and> main whole_float (\<lambda>n. []) [] no_features 5 6 30 30 = Inl ValueError"
  by (simp add: collect_without_airport main_without_airport no_features_def)

section \<open>The top-down pass\<close>

text \<open>
  Claim C3. Let \<open>s12\<close> be the state after the bottom-up passes over the Navaids and the
  equipment. Every identifier that is a key of an equipment dict and that a Navaid marked
  in \<open>s12\<close> refers to is in the set that \<open>collect_eadd_features\<close> returns, whether or not
  the bottom-up pass marked it.
\<close>

theorem top_down_marks_equipment:
  assumes "map_of (fbt ''AirportHeliport'') EADD_UUID = Some ahp"
    and "c10 = collect_airport_chain st fbt ahp"
    and "s11 = collect_navaids st fbt (keys c10) c10"
    and "s12 = collect_equipment st fbt (keys c10 \<union> snd s11) s11"
    and "fuuid \<in> snd s12"
    and "map_of (fbt ''Navaid'') fuuid = Some navaid"
    and "ref_uuid \<in> get_xlink_hrefs (st ! navaid)"
    and "is_equipment fbt ref_uuid"
  shows "\<exists>collected eadd_navaid_uuids.
           collect_eadd_features st fbt = Dict_and_set collected eadd_navaid_uuids
           \<and> ref_uuid \<in> eadd_navaid_uuids"
proof -
  have "ref_uuid \<in> mark_referenced_equipment st fbt (snd s12)"
    unfolding mark_referenced_equipment_def
    using assms(5-8) by (auto intro!: bexI [of _ fuuid])
  then show ?thesis
    using assms(1-4) by (simp add: collect_eadd_features_def Let_def)
qed

section \<open>Reference targets\<close>

lemma replace_from_skip:
  "length xs = k \<Longrightarrow> replace_from old new k (xs @ s) = replace_from old new 0 s"
  by (induction xs arbitrary: k) auto

lemma py_replace_prefix:
  "old \<noteq> [] \<Longrightarrow> py_replace old new (old @ s) = new @ py_replace old new s"
proof -
  assume ne: "old \<noteq> []"
  then obtain c cs where old: "old = c # cs" by (cases old) auto
  have "replace_from old new 0 (old @ s) = new @ replace_from old new (length old - 1) (cs @ s)"
    by (simp add: old)
  also have "replace_from old new (length old - 1) (cs @ s) = replace_from old new 0 s"
    by (rule replace_from_skip) (simp add: old)
  finally show ?thesis using ne by (simp add: py_replace_def)
qed

lemma replace_from_absent:
  "old \<noteq> [] \<Longrightarrow> hd old \<notin> set s \<Longrightarrow> replace_from old new 0 s = s"
  by (induction s) (auto simp: prefix_def neq_Nil_conv)

lemma py_replace_absent:
  "old \<noteq> [] \<Longrightarrow> hd old \<notin> set s \<Longrightarrow> py_replace old new s = s"
  by (simp add: py_replace_def replace_from_absent)

lemma urn_target:
  "CHR ''u'' \<notin> set target \<Longrightarrow> py_replace ''urn:uuid:'' [] (''urn:uuid:'' @ target) = target"
  using py_replace_prefix [of "''urn:uuid:''" "[]" target]
        py_replace_absent [of "''urn:uuid:''" target "[]"]
  by simp

lemma iter_feature_hrefs:
  "href_values (link name target) = [''urn:uuid:'' @ target]"
  "href_values (field name value) = []"
  by (simp_all add: href_values_def link_def field_def get_attr_def List.map_filter_simps)

lemma map_filter_concat:
  "List.map_filter f (concat xss) = concat (map (List.map_filter f) xss)"
  by (induction xss) (simp_all add: List.map_filter_def)

lemma href_values_Elem:
  "href_values (Elem t a x y cs) =
     (case map_of a XLINK_HREF of None \<Rightarrow> [] | Some h \<Rightarrow> [h]) @ concat (map href_values cs)"
proof -
  have "List.map_filter (\<lambda>x. get_attr x XLINK_HREF) (concat (map iter cs)) =
          concat (map href_values cs)"
    unfolding map_filter_concat map_map comp_def href_values_def ..
  then show ?thesis
    by (simp add: href_values_def List.map_filter_simps get_attr_def split: option.splits)
qed

lemma get_xlink_hrefs_Elem:
  "get_xlink_hrefs (Elem t a x y cs) =
     (case map_of a XLINK_HREF of
        None \<Rightarrow> {}
      | Some h \<Rightarrow> if is_urn_uuid h then {py_replace ''urn:uuid:'' [] h} else {})
     \<union> (\<Union>c \<in> set cs. get_xlink_hrefs c)"
  by (auto simp: get_xlink_hrefs_def href_values_Elem split: option.splits)

lemma is_urn_uuid_urn: "is_urn_uuid (''urn:uuid:'' @ target)"
  by (simp add: is_urn_uuid_def)

lemma gml_id_not_href: "GML_ID \<noteq> XLINK_HREF" "XLINK_HREF \<noteq> GML_ID"
  by (simp_all add: GML_ID_def XLINK_HREF_def)

lemma hrefs_link:
  "CHR ''u'' \<notin> set target \<Longrightarrow> get_xlink_hrefs (link name target) = {target}"
  using is_urn_uuid_urn [of target] urn_target [of target]
  by (simp add: link_def get_xlink_hrefs_Elem)

lemma hrefs_field: "get_xlink_hrefs (field name value) = {}"
  by (simp add: field_def get_xlink_hrefs_Elem)

lemma hrefs_feature:
  "get_xlink_hrefs (feature name ident props) = (\<Union>p \<in> set props. get_xlink_hrefs p)"
  by (simp add: feature_def get_xlink_hrefs_Elem gml_id_not_href)

section \<open>A run of the collector\<close>

lemma eadd_no_u: "CHR ''u'' \<notin> set EADD_UUID"
  by (simp add: EADD_UUID_def)

lemma hrefs_pos: "get_xlink_hrefs (pos value) = {}"
  by (simp add: pos_def get_xlink_hrefs_Elem)

lemma hrefs_ex:
  "get_xlink_hrefs ex_airport = {}"
  "get_xlink_hrefs ex_navaid = {EADD_UUID, ''e1''}"
  "get_xlink_hrefs ex_dme = {}"
  "get_xlink_hrefs ex_far_navaid = {}"
  by (auto simp: ex_airport_def ex_navaid_def ex_dme_def ex_far_navaid_def hrefs_feature
      hrefs_field hrefs_link hrefs_pos eadd_no_u)

lemma ex_ids:
  "EADD_UUID \<noteq> ''n1''" "EADD_UUID \<noteq> ''e1''" "''n1'' \<noteq> EADD_UUID" "''e1'' \<noteq> EADD_UUID"
  "EADD_UUID \<noteq> ''n2''" "''n2'' \<noteq> EADD_UUID"
  by (simp_all add: EADD_UUID_def)

lemma ex_airport_found: "map_of (ex_catalog ''AirportHeliport'') EADD_UUID = Some 0"
  by (simp add: ex_catalog_def)

lemma ex_c10: "collect_airport_chain ex_store ex_catalog 0 = [(EADD_UUID, ''AirportHeliport'', 0)]"
  by (simp add: collect_airport_chain_def find_referencing_def add_all_def ex_catalog_def Let_def)

lemma ex_s11:
  "collect_navaids ex_store ex_catalog {EADD_UUID} [(EADD_UUID, ''AirportHeliport'', 0)] =
     ([(EADD_UUID, ''AirportHeliport'', 0), (''n1'', ''Navaid'', Suc 0), (''n2'', ''Navaid'', 3)],
      {''n1''})"
  by (simp add: collect_navaids_def navaid_step_def ex_catalog_def keys_def ex_store_def hrefs_ex
      ex_ids)

lemma ex_s12:
  "collect_equipment ex_store ex_catalog {EADD_UUID, ''n1''}
     ([(EADD_UUID, ''AirportHeliport'', 0), (''n1'', ''Navaid'', Suc 0), (''n2'', ''Navaid'', 3)],
      {''n1''}) =
     ([(EADD_UUID, ''AirportHeliport'', 0), (''n1'', ''Navaid'', Suc 0), (''n2'', ''Navaid'', 3),
       (''e1'', ''DME'', 2)], {''n1''})"
  by (simp add: collect_equipment_def equipment_step_def ex_catalog_def keys_def ex_store_def
      hrefs_ex ex_ids NAVAID_EQUIPMENT_TYPES_def)

theorem top_down_marks_equipment_witness:
  "''e1'' \<notin> snd (collect_equipment ex_store ex_catalog {EADD_UUID, ''n1''}
     ([(EADD_UUID, ''AirportHeliport'', 0), (''n1'', ''Navaid'', Suc 0), (''n2'', ''Navaid'', 3)],
      {''n1''}))
   \<and> (\<exists>collected eadd_navaid_uuids.
         collect_eadd_features ex_store ex_catalog = Dict_and_set collected eadd_navaid_uuids
         \<and> ''e1'' \<in> eadd_navaid_uuids)"
proof -
  let ?c10 = "[(EADD_UUID, ''AirportHeliport'', 0::nat)]"
  let ?s11 = "([(EADD_UUID, ''AirportHeliport'', 0::nat), (''n1'', ''Navaid'', Suc 0),
                (''n2'', ''Navaid'', 3)], {''n1''})"
  let ?s12 = "([(EADD_UUID, ''AirportHeliport'', 0::nat), (''n1'', ''Navaid'', Suc 0),
                (''n2'', ''Navaid'', 3), (''e1'', ''DME'', 2)], {''n1''})"
  have a: "?c10 = collect_airport_chain ex_store ex_catalog 0"
    by (simp add: ex_c10)
  have b: "?s11 = collect_navaids ex_store ex_catalog (keys ?c10) ?c10"
    by (simp add: ex_s11 keys_def)
  have c: "?s12 = collect_equipment ex_store ex_catalog (keys ?c10 \<union> snd ?s11) ?s11"
    by (simp add: ex_s12 keys_def insert_commute)
  have d: "''n1'' \<in> snd ?s12"
    by simp
  have e: "map_of (ex_catalog ''Navaid'') ''n1'' = Some 1" by (simp add: ex_catalog_def)
  have f: "''e1'' \<in> get_xlink_hrefs (ex_store ! 1)" by (simp add: ex_store_def hrefs_ex)
  have g: "is_equipment ex_catalog ''e1''"
    by (simp add: is_equipment_def NAVAID_EQUIPMENT_TYPES_def ex_catalog_def keys_def)
  from top_down_marks_equipment [OF ex_airport_found a b c d e f g] show ?thesis
    by (simp add: ex_s12)
qed

section \<open>The loop of clone\_feature\_set\<close>

lemma clone_one_unfold:
  "clone_one F um idx off offn lr st item =
     (case clone_steps F um idx off offn lr (fst item) (fst (snd item)) (st ! snd (snd item)) of
        Inl err \<Rightarrow> Inl err
      | Inr e \<Rightarrow> Inr (st @ [e], (fst (snd item), length st)))"
  by (simp add: clone_one_def deepcopy_def Let_def split: sum.splits)

lemma clone_loop_length:
  "clone_loop F um idx off offn lr st items = Inr (st', cloned) \<Longrightarrow>
     length cloned = length items"
proof (induction items arbitrary: st st' cloned)
  case Nil
  then show ?case by simp
next
  case (Cons item items)
  then show ?case
    by (auto split: sum.splits)
qed

lemma clone_loop_result:
  assumes "clone_loop F um idx off offn lr st items = Inr (st', cloned)"
    and "refs_in_store st items"
  shows "\<exists>es. st' = st @ es \<and> length es = length items
           \<and> cloned = zip (map (\<lambda>item. fst (snd item)) items)
                         [length st ..< length st + length items]
           \<and> (\<forall>i < length items.
                 clone_steps F um idx off offn lr (fst (items ! i)) (fst (snd (items ! i)))
                   (st ! snd (snd (items ! i))) = Inr (es ! i))"
  using assms
proof (induction items arbitrary: st st' cloned)
  case Nil
  then show ?case by simp
next
  case (Cons item items)
  from Cons.prems(1) obtain e where
    e: "clone_steps F um idx off offn lr (fst item) (fst (snd item)) (st ! snd (snd item)) = Inr e"
    by (auto simp: clone_one_unfold split: sum.splits)
  with Cons.prems(1) obtain rest where
    rest: "clone_loop F um idx off offn lr (st @ [e]) items = Inr (st', rest)"
    and cl: "cloned = (fst (snd item), length st) # rest"
    by (auto simp: clone_one_unfold split: sum.splits)
  from Cons.prems(2) have wf: "refs_in_store (st @ [e]) items" and here: "snd (snd item) < length st"
    and wf0: "\<forall>x \<in> set items. snd (snd x) < length st"
    by (auto simp: refs_in_store_def list_all_iff)
  from Cons.IH [OF rest wf] obtain es where
    es: "st' = (st @ [e]) @ es" "length es = length items"
      "rest = zip (map (\<lambda>item. fst (snd item)) items)
                [length (st @ [e]) ..< length (st @ [e]) + length items]"
      "\<forall>i < length items.
         clone_steps F um idx off offn lr (fst (items ! i)) (fst (snd (items ! i)))
           ((st @ [e]) ! snd (snd (items ! i))) = Inr (es ! i)"
    by blast
  have steps: "\<forall>i < length (item # items).
         clone_steps F um idx off offn lr (fst ((item # items) ! i))
           (fst (snd ((item # items) ! i))) (st ! snd (snd ((item # items) ! i)))
         = Inr ((e # es) ! i)"
  proof (intro allI impI)
    fix i assume i: "i < length (item # items)"
    show "clone_steps F um idx off offn lr (fst ((item # items) ! i))
           (fst (snd ((item # items) ! i))) (st ! snd (snd ((item # items) ! i)))
         = Inr ((e # es) ! i)"
    proof (cases i)
      case 0
      then show ?thesis using e by simp
    next
      case (Suc j)
      with i have j: "j < length items" by simp
      then have "snd (snd (items ! j)) < length st" using wf0 by simp
      then have eq: "(st @ [e]) ! snd (snd (items ! j)) = st ! snd (snd (items ! j))"
        by (simp add: nth_append)
      from es(4) j have "clone_steps F um idx off offn lr (fst (items ! j))
           (fst (snd (items ! j))) ((st @ [e]) ! snd (snd (items ! j))) = Inr (es ! j)"
        by blast
      with eq Suc show ?thesis by simp
    qed
  qed
  have "cloned = zip (map (\<lambda>item. fst (snd item)) (item # items))
                   [length st ..< length st + length (item # items)]"
  proof -
    have "[length st ..< length st + length (item # items)] =
            length st # [length (st @ [e]) ..< length (st @ [e]) + length items]"
      by (subst upt_conv_Cons) (simp_all del: upt_Suc)
    with cl es(3) show ?thesis by (simp del: upt_Suc)
  qed
  with es(1,2) steps show ?case
    by (intro exI [of _ "e # es"]) simp
qed

section \<open>The identifier map\<close>

lemma build_uuid_map_fold:
  "foldl (\<lambda>acc item.
              (AList.update (fst item) (fst (generate_new_uuid uuids (snd acc))) (fst acc),
               snd (generate_new_uuid uuids (snd acc))))
       (m, k) items = (m', k') \<Longrightarrow>
   k' = k + length items \<and> keys m' = keys m \<union> keys items
   \<and> (\<forall>key v. map_of m' key = Some v \<longrightarrow>
         map_of m key = Some v \<or> v \<in> uuids ` {k ..< k + length items})"
proof (induction items arbitrary: m k)
  case Nil
  then show ?case by (simp add: keys_def)
next
  case (Cons item items)
  let ?m1 = "AList.update (fst item) (uuids k) m"
  from Cons.prems have
    "foldl (\<lambda>acc item.
              (AList.update (fst item) (fst (generate_new_uuid uuids (snd acc))) (fst acc),
               snd (generate_new_uuid uuids (snd acc))))
       (?m1, Suc k) items = (m', k')"
    by (simp add: generate_new_uuid_def)
  from Cons.IH [OF this] have
    k': "k' = Suc k + length items" and ks: "keys m' = keys ?m1 \<union> keys items"
    and vs: "\<forall>key v. map_of m' key = Some v \<longrightarrow>
         map_of ?m1 key = Some v \<or> v \<in> uuids ` {Suc k ..< Suc k + length items}"
    by blast+
  have "keys ?m1 = insert (fst item) (keys m)"
    by (simp add: keys_def dom_update)
  with ks have ks': "keys m' = keys m \<union> keys (item # items)" by (auto simp: keys_def)
  have "\<forall>key v. map_of m' key = Some v \<longrightarrow>
         map_of m key = Some v \<or> v \<in> uuids ` {k ..< k + length (item # items)}"
  proof (intro allI impI)
    fix key v assume "map_of m' key = Some v"
    with vs have "map_of ?m1 key = Some v \<or> v \<in> uuids ` {Suc k ..< Suc k + length items}"
      by blast
    then show "map_of m key = Some v \<or> v \<in> uuids ` {k ..< k + length (item # items)}"
    proof
      assume "map_of ?m1 key = Some v"
      then show ?thesis by (auto simp: update_conv' split: if_splits)
    next
      assume "v \<in> uuids ` {Suc k ..< Suc k + length items}"
      then show ?thesis by auto
    qed
  qed
  with k' ks' show ?case by simp
qed

lemma build_uuid_map_props:
  "snd (build_uuid_map uuids n collected) = n + length collected"
  "keys (fst (build_uuid_map uuids n collected)) = keys collected"
  "map_of (fst (build_uuid_map uuids n collected)) key = Some v \<Longrightarrow>
     v \<in> uuids ` {n ..< n + length collected}"
  using build_uuid_map_fold [of uuids "[]" n collected
          "fst (build_uuid_map uuids n collected)" "snd (build_uuid_map uuids n collected)"]
  by (auto simp: build_uuid_map_def keys_def)

lemma clone_feature_set_result:
  assumes "clone_feature_set F uuids st n collected index grid_cols distance_nm lr =
             Inr (st', cloned, new_ahp_uuid, n')"
    and "refs_in_store st collected"
  shows "\<exists>offset offset_nav es.
           calculate_grid_offset F index grid_cols distance_nm = Inr offset
         \<and> calculate_grid_offset F index grid_cols (fdiv F distance_nm (from_literal F 10)) =
             Inr offset_nav
         \<and> st' = st @ es \<and> length es = length collected
         \<and> cloned = zip (map (\<lambda>item. fst (snd item)) collected)
                       [length st ..< length st + length collected]
         \<and> (\<forall>i < length collected.
               clone_steps F (fst (build_uuid_map uuids n collected)) index offset offset_nav lr
                 (fst (collected ! i)) (fst (snd (collected ! i)))
                 (st ! snd (snd (collected ! i))) = Inr (es ! i))
         \<and> map_of (fst (build_uuid_map uuids n collected)) EADD_UUID = Some new_ahp_uuid
         \<and> n' = n + length collected"
proof -
  let ?um = "fst (build_uuid_map uuids n collected)"
  from assms(1) obtain offset offset_nav where
    o: "calculate_grid_offset F index grid_cols distance_nm = Inr offset"
       "calculate_grid_offset F index grid_cols (fdiv F distance_nm (from_literal F 10)) =
          Inr offset_nav"
    by (auto simp: clone_feature_set_def split: sum.splits)
  with assms(1) have
    l: "clone_loop F ?um index offset offset_nav lr st collected = Inr (st', cloned)"
    and u: "map_of ?um EADD_UUID = Some new_ahp_uuid"
    and n': "n' = snd (build_uuid_map uuids n collected)"
    by (auto simp: clone_feature_set_def Let_def split: sum.splits option.splits)
  from clone_loop_result [OF l assms(2)] o u n' show ?thesis
    by (auto simp: build_uuid_map_props(1))
qed

section \<open>One clone per record\<close>

text \<open>
  Claim C8. When \<open>clone_feature_set\<close> returns, the list of cloned records has as many
  elements as the belonging set has identifiers. The keys of a dict are distinct.
\<close>

theorem one_clone_per_record:
  assumes "clone_feature_set F uuids st n collected index grid_cols distance_nm lr =
             Inr (st', cloned, new_ahp_uuid, n')"
    and "distinct (map fst collected)"
  shows "length cloned = card (keys collected)"
proof -
  from assms(1) obtain um offset offset_nav where
    "clone_loop F um index offset offset_nav lr st collected = Inr (st', cloned)"
    by (auto simp: clone_feature_set_def Let_def split: sum.splits option.splits)
  then have "length cloned = length collected" by (rule clone_loop_length)
  moreover have "card (keys collected) = length collected"
    using distinct_card [OF assms(2)] by (simp add: keys_def)
  ultimately show ?thesis by simp
qed

section \<open>Which offset a record gets\<close>

text \<open>
  Claim C4. In the result of \<open>clone_feature_set\<close>, the clone of the record
  \<open>(old_uuid, feat_type, orig_elem)\<close> is the re-identified and re-linked copy, shifted by
  \<open>offset_all_coordinates\<close> and then relabelled. The shift is the secondary offset, the
  grid offset for \<open>distance_nm / 10\<close>, when the type is Navaid or one of the equipment
  types and \<open>old_uuid\<close> is not in \<open>eadd_navaid_uuids\<close>, and the primary offset, the grid
  offset for \<open>distance_nm\<close>, for every other record.
\<close>

theorem clone_offset_choice:
  assumes "clone_feature_set F uuids st n collected index grid_cols distance_nm lr =
             Inr (st', cloned, new_ahp_uuid, n')"
    and "refs_in_store st collected"
    and "i < length collected"
    and "collected ! i = (old_uuid, feat_type, orig_elem)"
  shows "\<exists>offset offset_nav new_uuid e1.
           calculate_grid_offset F index grid_cols distance_nm = Inr offset
         \<and> calculate_grid_offset F index grid_cols (fdiv F distance_nm (from_literal F 10)) =
             Inr offset_nav
         \<and> update_feature_ids (st ! orig_elem) new_uuid = Inr e1
         \<and> cloned ! i = (feat_type, length st + i)
         \<and> st' ! (length st + i) =
             type_specific_updates index feat_type
               (if feat_type \<in> set (''Navaid'' # NAVAID_EQUIPMENT_TYPES) \<and> old_uuid \<notin> lr
                then offset_all_coordinates F
                       (update_xlink_refs e1 (fst (build_uuid_map uuids n collected)))
                       (fst offset_nav) (snd offset_nav)
                else offset_all_coordinates F
                       (update_xlink_refs e1 (fst (build_uuid_map uuids n collected)))
                       (fst offset) (snd offset))"
proof -
  let ?um = "fst (build_uuid_map uuids n collected)"
  from clone_feature_set_result [OF assms(1,2)] obtain offset offset_nav es where
    o: "calculate_grid_offset F index grid_cols distance_nm = Inr offset"
       "calculate_grid_offset F index grid_cols (fdiv F distance_nm (from_literal F 10)) =
          Inr offset_nav"
    and st': "st' = st @ es" and len: "length es = length collected"
    and cl: "cloned = zip (map (\<lambda>item. fst (snd item)) collected)
                       [length st ..< length st + length collected]"
    and steps: "\<forall>i < length collected.
               clone_steps F ?um index offset offset_nav lr
                 (fst (collected ! i)) (fst (snd (collected ! i)))
                 (st ! snd (snd (collected ! i))) = Inr (es ! i)"
    by blast
  from steps assms(3,4) have
    s: "clone_steps F ?um index offset offset_nav lr old_uuid feat_type (st ! orig_elem) =
          Inr (es ! i)"
    by force
  then obtain new_uuid e1 where
    e1: "update_feature_ids (st ! orig_elem) new_uuid = Inr e1"
    and r: "es ! i = type_specific_updates index feat_type
               (if feat_type \<in> set navaid_types \<and> old_uuid \<notin> lr
                then offset_all_coordinates F (update_xlink_refs e1 ?um)
                       (fst offset_nav) (snd offset_nav)
                else offset_all_coordinates F (update_xlink_refs e1 ?um)
                       (fst offset) (snd offset))"
    by (auto simp: clone_steps_def Let_def split: option.splits sum.splits)
  have c1: "cloned ! i = (feat_type, length st + i)"
    using assms(3,4) cl by simp
  have "st' ! (length st + i) = es ! i" by (simp add: st')
  with r have c2: "st' ! (length st + i) =
             type_specific_updates index feat_type
               (if feat_type \<in> set (''Navaid'' # NAVAID_EQUIPMENT_TYPES) \<and> old_uuid \<notin> lr
                then offset_all_coordinates F (update_xlink_refs e1 ?um)
                       (fst offset_nav) (snd offset_nav)
                else offset_all_coordinates F (update_xlink_refs e1 ?um)
                       (fst offset) (snd offset))"
    unfolding navaid_types_def by simp
  show ?thesis
    by (rule exI [of _ offset], rule exI [of _ offset_nav], rule exI [of _ new_uuid],
        rule exI [of _ e1], intro conjI) (rule o(1) o(2) e1 c1 c2)+
qed

section \<open>The first node with a tag\<close>

lemma first_desc_Cons:
  "first_desc P (e # rest) =
     (if P e then Some e
      else (case first_desc P (children e) of Some r \<Rightarrow> Some r | None \<Rightarrow> first_desc P rest))"
  by (cases e) simp

lemma map_first_Cons:
  "map_first P f (e # rest) =
     (if P e then f e # rest
      else (case first_desc P (children e) of
              Some r \<Rightarrow> set_children (map_first P f (children e)) e # rest
            | None \<Rightarrow> e # map_first P f rest))"
  by (cases e) (simp add: set_children_def split: option.splits)

lemma tag_contains_cong: "tag e = tag e' \<Longrightarrow> tag_contains s e = tag_contains s e'"
  by (simp add: tag_contains_def)

lemma tag_simps [simp]:
  "tag (set_attr k v e) = tag e" "tag (set_text x e) = tag e" "tag (set_children cs e) = tag e"
  "children (set_attr k v e) = children e" "children (set_text x e) = children e"
  "children (set_children cs e) = cs"
  "attrib (set_text x e) = attrib e" "attrib (set_children cs e) = attrib e"
  "etext (set_text x e) = x"
  by (simp_all add: set_attr_def set_text_def set_children_def)

lemma first_desc_map_first:
  assumes "\<And>x. tag (f x) = tag x"
  shows "first_desc (tag_contains s) (map_first (tag_contains s) f cs) =
           map_option f (first_desc (tag_contains s) cs)"
proof (induction "tag_contains s" cs rule: first_desc.induct)
  case 1
  then show ?case by simp
next
  case (2 t a x y cs rest)
  let ?e = "Elem t a x y cs"
  show ?case
  proof (cases "tag_contains s ?e")
    case True
    moreover have "tag_contains s (f ?e)"
      using True tag_contains_cong [of "f ?e" ?e s] assms by simp
    ultimately show ?thesis by (simp add: first_desc_Cons)
  next
    case False
    then have F2: "\<not> tag_contains s (Elem t a x y (map_first (tag_contains s) f cs))"
      by (simp add: tag_contains_def)
    show ?thesis
    proof (cases "first_desc (tag_contains s) cs")
      case None
      with False 2 show ?thesis by simp
    next
      case (Some r)
      with False 2 F2 show ?thesis by simp
    qed
  qed
qed

lemma first_desc_upd_first_child:
  assumes "\<not> contains s t" "\<And>x. tag (g x) = tag x" "\<And>x. children (g x) = children x"
  shows "first_desc (tag_contains s) (upd_first_child (has_tag t) g cs) =
           first_desc (tag_contains s) cs"
proof (induction cs)
  case Nil
  then show ?case by simp
next
  case (Cons c cs)
  show ?case
  proof (cases "has_tag t c")
    case True
    then have "\<not> tag_contains s c" "\<not> tag_contains s (g c)"
      using assms(1,2) by (simp_all add: has_tag_def tag_contains_def)
    with True show ?thesis by (simp add: first_desc_Cons assms(3))
  next
    case False
    with Cons show ?thesis by (simp add: first_desc_Cons split: option.splits)
  qed
qed

section \<open>The identifiers of the version block\<close>

lemma get_attr_timeslice_ids: "get_attr (timeslice_ids pre ts) GML_ID = Some pre"
  by (simp add: timeslice_ids_def get_attr_def set_attr_def update_conv')

lemma tag_timeslice_ids: "tag (timeslice_ids pre ts) = tag ts"
  by (simp add: timeslice_ids_def)

lemma identifier_no_timeslice: "\<not> contains ''TimeSlice'' (gml ''identifier'')"
  by (simp add: gml_def)

lemma update_feature_ids_timeslice:
  assumes "first_desc (tag_contains ''TimeSlice'') (children e) = Some ts"
    and "read_number (find_child (aixm ''sequenceNumber'') ts) 1 = Inr sq"
    and "read_number (find_child (aixm ''correctionNumber'') ts) 0 = Inr cr"
  shows "\<exists>e' ts'. update_feature_ids e new_uuid = Inr e'
           \<and> first_desc (tag_contains ''TimeSlice'') (children e') = Some ts'
           \<and> get_attr ts' GML_ID =
               Some (''id_'' @ new_uuid @ ''_'' @ str_of_int sq @ ''_'' @ str_of_int cr @ ''_B'')"
proof -
  let ?cs = "upd_first_child (has_tag (gml ''identifier'')) (set_text (Some new_uuid))
               (children (set_attr GML_ID (''uuid.'' @ new_uuid) e))"
  let ?pre = "''id_'' @ new_uuid @ ''_'' @ str_of_int sq @ ''_'' @ str_of_int cr @ ''_B''"
  have found: "first_desc (tag_contains ''TimeSlice'') ?cs = Some ts"
    using first_desc_upd_first_child [OF identifier_no_timeslice, of "set_text (Some new_uuid)" "children e"]
      assms(1) by simp
  let ?e' = "set_children (map_first (tag_contains ''TimeSlice'') (timeslice_ids ?pre) ?cs)
               (set_children ?cs (set_attr GML_ID (''uuid.'' @ new_uuid) e))"
  have "update_feature_ids e new_uuid = Inr ?e'"
    using found assms(2,3) by (simp add: update_feature_ids_def Let_def)
  moreover have "first_desc (tag_contains ''TimeSlice'') (children ?e') = Some (timeslice_ids ?pre ts)"
    using first_desc_map_first [of "timeslice_ids ?pre" "''TimeSlice''" ?cs] found
    by (simp add: tag_timeslice_ids)
  ultimately show ?thesis
    using get_attr_timeslice_ids [of ?pre ts] by blast
qed

lemma read_number_missing: "missing_or_empty e \<Longrightarrow> read_number e dflt = Inr dflt"
  by (auto simp: missing_or_empty_def read_number_def split: option.splits)

lemma str_of_int_0_1: "str_of_int 1 = ''1''" "str_of_int 0 = ''0''"
  by (simp_all add: str_of_int_def str_of_nat.simps digit_char_def)

text \<open>
  Claim C9. When the first TimeSlice of a record has no sequenceNumber child, or one
  without text, \<open>update_feature_ids\<close> uses 1, and when it has no correctionNumber child,
  or one without text, it uses 0: the call returns and the \<open>gml:id\<close> of the TimeSlice is
  built from these numbers, \<open>id_<uuid>_1_0_B\<close> when both are missing.
\<close>

theorem update_feature_ids_defaults:
  assumes "first_desc (tag_contains ''TimeSlice'') (children e) = Some ts"
  shows "(missing_or_empty (find_child (aixm ''sequenceNumber'') ts) \<and>
          missing_or_empty (find_child (aixm ''correctionNumber'') ts) \<longrightarrow>
            (\<exists>e' ts'. update_feature_ids e new_uuid = Inr e'
               \<and> first_desc (tag_contains ''TimeSlice'') (children e') = Some ts'
               \<and> get_attr ts' GML_ID = Some (''id_'' @ new_uuid @ ''_1_0_B'')))
       \<and> (missing_or_empty (find_child (aixm ''sequenceNumber'') ts) \<and>
          read_number (find_child (aixm ''correctionNumber'') ts) 0 = Inr cr \<longrightarrow>
            (\<exists>e' ts'. update_feature_ids e new_uuid = Inr e'
               \<and> first_desc (tag_contains ''TimeSlice'') (children e') = Some ts'
               \<and> get_attr ts' GML_ID =
                   Some (''id_'' @ new_uuid @ ''_1_'' @ str_of_int cr @ ''_B'')))
       \<and> (read_number (find_child (aixm ''sequenceNumber'') ts) 1 = Inr sq \<and>
          missing_or_empty (find_child (aixm ''correctionNumber'') ts) \<longrightarrow>
            (\<exists>e' ts'. update_feature_ids e new_uuid = Inr e'
               \<and> first_desc (tag_contains ''TimeSlice'') (children e') = Some ts'
               \<and> get_attr ts' GML_ID =
                   Some (''id_'' @ new_uuid @ ''_'' @ str_of_int sq @ ''_0_B'')))"
proof (intro conjI impI)
  assume "missing_or_empty (find_child (aixm ''sequenceNumber'') ts) \<and>
          missing_or_empty (find_child (aixm ''correctionNumber'') ts)"
  then have "read_number (find_child (aixm ''sequenceNumber'') ts) 1 = Inr 1"
    "read_number (find_child (aixm ''correctionNumber'') ts) 0 = Inr 0"
    by (simp_all add: read_number_missing)
  from update_feature_ids_timeslice [OF assms this, of new_uuid]
  show "\<exists>e' ts'. update_feature_ids e new_uuid = Inr e'
               \<and> first_desc (tag_contains ''TimeSlice'') (children e') = Some ts'
               \<and> get_attr ts' GML_ID = Some (''id_'' @ new_uuid @ ''_1_0_B'')"
    by (simp add: str_of_int_0_1)
next
  assume "missing_or_empty (find_child (aixm ''sequenceNumber'') ts) \<and>
          read_number (find_child (aixm ''correctionNumber'') ts) 0 = Inr cr"
  then have "read_number (find_child (aixm ''sequenceNumber'') ts) 1 = Inr 1"
    "read_number (find_child (aixm ''correctionNumber'') ts) 0 = Inr cr"
    by (simp_all add: read_number_missing)
  from update_feature_ids_timeslice [OF assms this, of new_uuid]
  show "\<exists>e' ts'. update_feature_ids e new_uuid = Inr e'
               \<and> first_desc (tag_contains ''TimeSlice'') (children e') = Some ts'
               \<and> get_attr ts' GML_ID =
                   Some (''id_'' @ new_uuid @ ''_1_'' @ str_of_int cr @ ''_B'')"
    by (simp add: str_of_int_0_1)
next
  assume "read_number (find_child (aixm ''sequenceNumber'') ts) 1 = Inr sq \<and>
          missing_or_empty (find_child (aixm ''correctionNumber'') ts)"
  then have "read_number (find_child (aixm ''sequenceNumber'') ts) 1 = Inr sq"
    "read_number (find_child (aixm ''correctionNumber'') ts) 0 = Inr 0"
    by (simp_all add: read_number_missing)
  from update_feature_ids_timeslice [OF assms this, of new_uuid]
  show "\<exists>e' ts'. update_feature_ids e new_uuid = Inr e'
               \<and> first_desc (tag_contains ''TimeSlice'') (children e') = Some ts'
               \<and> get_attr ts' GML_ID =
                   Some (''id_'' @ new_uuid @ ''_'' @ str_of_int sq @ ''_0_B'')"
    by (simp add: str_of_int_0_1)
qed

lemma ex_airport_block:
  "(case first_desc (tag_contains ''TimeSlice'') (children ex_airport) of
      None \<Rightarrow> False
    | Some ts \<Rightarrow> missing_or_empty (find_child (aixm ''sequenceNumber'') ts)
                \<and> missing_or_empty (find_child (aixm ''correctionNumber'') ts))"
  by code_simp

theorem update_feature_ids_defaults_witness:
  "first_desc (tag_contains ''TimeSlice'') (children ex_airport) \<noteq> None
   \<and> (\<exists>e' ts'. update_feature_ids ex_airport ''abc'' = Inr e'
         \<and> first_desc (tag_contains ''TimeSlice'') (children e') = Some ts'
         \<and> get_attr ts' GML_ID = Some ''id_abc_1_0_B'')"
proof -
  from ex_airport_block obtain ts where
    ts: "first_desc (tag_contains ''TimeSlice'') (children ex_airport) = Some ts"
    and m: "missing_or_empty (find_child (aixm ''sequenceNumber'') ts)"
      "missing_or_empty (find_child (aixm ''correctionNumber'') ts)"
    by (auto split: option.splits)
  from update_feature_ids_defaults [OF ts, of "''abc''"] m ts show ?thesis by simp
qed

section \<open>A run of clone\_feature\_set\<close>

lemma ex_run:
  "(case clone_feature_set whole_float ex_uuids ex_store 0 ex_collected 7 6 1200 ex_marked of
      Inl err \<Rightarrow> False
    | Inr r \<Rightarrow> True)"
  by code_simp

lemma ex_wf: "refs_in_store ex_store ex_collected"
  by code_simp

lemma ex_distinct: "distinct (map fst ex_collected)"
  by code_simp

theorem one_clone_per_record_witness:
  "distinct (map fst ex_collected) \<and> length ex_collected = 5
   \<and> (\<exists>st' cloned new_ahp_uuid n'.
         clone_feature_set whole_float ex_uuids ex_store 0 ex_collected 7 6 1200 ex_marked =
           Inr (st', cloned, new_ahp_uuid, n')
         \<and> length cloned = card (keys ex_collected))"
proof -
  from ex_run obtain st' cloned new_ahp_uuid n' where
    run: "clone_feature_set whole_float ex_uuids ex_store 0 ex_collected 7 6 1200 ex_marked =
            Inr (st', cloned, new_ahp_uuid, n')"
    by (auto split: sum.splits)
  from one_clone_per_record [OF run ex_distinct] run ex_distinct show ?thesis
    by (auto simp: ex_collected_def)
qed

lemma ex_positions:
  "(case clone_feature_set whole_float ex_uuids ex_store 0 ex_collected 7 6 1200 ex_marked of
      Inl err \<Rightarrow> False
    | Inr r \<Rightarrow>
        map etext (filter (has_tag (gml ''pos'')) (iter (fst r ! 7))) = [Some ''54 -29'']
        \<and> map etext (filter (has_tag (gml ''pos'')) (iter (fst r ! 6))) = [Some ''72 0''])"
  by code_simp

theorem clone_offset_choice_witness:
  "refs_in_store ex_store ex_collected \<and> ex_collected ! 2 = (''n2'', ''Navaid'', 3)
   \<and> ''n2'' \<notin> ex_marked
   \<and> (\<exists>st' cloned new_ahp_uuid n'.
         clone_feature_set whole_float ex_uuids ex_store 0 ex_collected 7 6 1200 ex_marked =
           Inr (st', cloned, new_ahp_uuid, n')
         \<and> cloned ! 2 = (''Navaid'', 7)
         \<and> map etext (filter (has_tag (gml ''pos'')) (iter (st' ! 7))) = [Some ''54 -29''])"
proof -
  from ex_positions obtain st' cloned new_ahp_uuid n' where
    run: "clone_feature_set whole_float ex_uuids ex_store 0 ex_collected 7 6 1200 ex_marked =
            Inr (st', cloned, new_ahp_uuid, n')"
    and p: "map etext (filter (has_tag (gml ''pos'')) (iter (st' ! 7))) = [Some ''54 -29'']"
    by (auto split: sum.splits)
  have i: "2 < length ex_collected" and c: "ex_collected ! 2 = (''n2'', ''Navaid'', 3)"
    by (simp_all add: ex_collected_def)
  from clone_offset_choice [OF run ex_wf i c] have c2: "cloned ! 2 = (''Navaid'', 7)"
    by (auto simp: ex_store_def)
  have m: "''n2'' \<notin> ex_marked" by (simp add: ex_marked_def)
  have ex: "\<exists>st' cloned new_ahp_uuid n'.
         clone_feature_set whole_float ex_uuids ex_store 0 ex_collected 7 6 1200 ex_marked =
           Inr (st', cloned, new_ahp_uuid, n')
         \<and> cloned ! 2 = (''Navaid'', 7)
         \<and> map etext (filter (has_tag (gml ''pos'')) (iter (st' ! 7))) = [Some ''54 -29'']"
    by (rule exI [of _ st'], rule exI [of _ cloned], rule exI [of _ new_ahp_uuid],
        rule exI [of _ n'], intro conjI) (rule run c2 p)+
  show ?thesis by (intro conjI) (rule ex_wf c m ex)+
qed

section \<open>Steps that keep the shape\<close>

lemma shape_of_alt: "shape_of e = Shape (tag e) (map shape_of (children e))"
  by (cases e) simp

lemma shape_set [simp]:
  "shape_of (set_attr k v e) = shape_of e"
  "shape_of (set_text x e) = shape_of e"
  "shape_of (set_children cs e) = Shape (tag e) (map shape_of cs)"
  by (cases e; simp add: set_attr_def set_text_def set_children_def)+

lemma shape_tag: "shape_of e = shape_of e' \<Longrightarrow> tag e = tag e'"
  by (cases e; cases e') simp

lemma shape_children:
  "shape_of e = shape_of e' \<Longrightarrow> map shape_of (children e) = map shape_of (children e')"
  by (cases e; cases e') simp

lemma shape_upd_first_child:
  assumes "\<And>x. shape_of (g x) = shape_of x"
  shows "map shape_of (upd_first_child P g cs) = map shape_of cs"
  by (induction cs) (simp_all add: assms)

lemma shape_map_first_all:
  "\<forall>x. shape_of (f x) = shape_of x \<Longrightarrow> map shape_of (map_first P f cs) = map shape_of cs"
  by (induction P f cs rule: map_first.induct) (simp_all split: option.splits)

lemma shape_map_first:
  assumes "\<And>x. shape_of (f x) = shape_of x"
  shows "map shape_of (map_first P f cs) = map shape_of cs"
  using assms by (simp add: shape_map_first_all)

lemma shape_renumber: "map shape_of (fst (renumber pre n cs)) = map shape_of cs"
  by (induction pre n cs rule: renumber.induct) (simp_all add: Let_def)

lemma shape_timeslice_ids: "shape_of (timeslice_ids pre ts) = shape_of ts"
  by (simp add: timeslice_ids_def shape_renumber) (simp add: shape_of_alt [of ts])

lemma shape_update_feature_ids:
  assumes "update_feature_ids e new_uuid = Inr e'"
  shows "shape_of e' = shape_of e"
proof -
  let ?e1 = "set_attr GML_ID (''uuid.'' @ new_uuid) e"
  let ?cs = "upd_first_child (has_tag (gml ''identifier'')) (set_text (Some new_uuid)) (children ?e1)"
  have cs: "map shape_of ?cs = map shape_of (children e)"
    by (simp add: shape_upd_first_child)
  from assms have "e' = set_children ?cs ?e1 \<or>
      (\<exists>pre. e' = set_children (map_first (tag_contains ''TimeSlice'') (timeslice_ids pre) ?cs)
                    (set_children ?cs ?e1))"
    by (auto simp: update_feature_ids_def Let_def split: option.splits sum.splits)
  then show ?thesis
    using cs by (auto simp: shape_map_first shape_timeslice_ids shape_of_alt [of e])
qed

lemma shape_update_xlink_refs: "shape_of (update_xlink_refs e m) = shape_of e"
  by (induction e m rule: update_xlink_refs.induct) simp

lemma shape_map_text_of: "shape_of (map_text_of t f e) = shape_of e"
  by (induction t f e rule: map_text_of.induct) simp

lemma shape_offset_all_coordinates: "shape_of (offset_all_coordinates F e lat lon) = shape_of e"
  by (simp add: offset_all_coordinates_def shape_map_text_of)

lemma first_desc_shape:
  "map shape_of cs = map shape_of cs' \<Longrightarrow>
     rel_option (\<lambda>r r'. shape_of r = shape_of r')
       (first_desc (tag_contains s) cs) (first_desc (tag_contains s) cs')"
proof (induction "tag_contains s" cs arbitrary: cs' rule: first_desc.induct)
  case 1
  then show ?case by simp
next
  case (2 t a x y cs rest)
  let ?e = "Elem t a x y cs"
  from "2.prems" obtain e' rest' where
    cs': "cs' = e' # rest'" and e': "shape_of e' = shape_of ?e"
    and rest': "map shape_of rest = map shape_of rest'"
    by (cases cs') auto
  from e' have same: "tag_contains s e' = tag_contains s ?e"
    using shape_tag [OF e'] by (simp add: tag_contains_def)
  from e' have ch: "map shape_of cs = map shape_of (children e')"
    using shape_children [OF e'] by simp
  show ?case
  proof (cases "tag_contains s ?e")
    case True
    with same e' show ?thesis by (simp add: cs' first_desc_Cons)
  next
    case False
    have r1: "rel_option (\<lambda>r r'. shape_of r = shape_of r')
       (first_desc (tag_contains s) cs) (first_desc (tag_contains s) (children e'))"
      using "2.hyps"(1) [OF False ch] .
    show ?thesis
    proof (cases "first_desc (tag_contains s) cs")
      case None
      with r1 have n': "first_desc (tag_contains s) (children e') = None" by (cases "first_desc (tag_contains s) (children e')") auto
      from "2.hyps"(2) [OF False None rest'] False same None n' show ?thesis
        by (simp add: cs' first_desc_Cons)
    next
      case (Some r)
      with r1 obtain r' where "first_desc (tag_contains s) (children e') = Some r'"
        "shape_of r = shape_of r'"
        by (cases "first_desc (tag_contains s) (children e')") auto
      with False same Some show ?thesis by (simp add: cs' first_desc_Cons)
    qed
  qed
qed

lemma find_child_None: "(find_child t e = None) = (Some t \<notin> tag ` set (children e))"
  unfolding find_child_def find_None_iff has_tag_def
  by (metis (mono_tags, lifting) image_iff)

lemma find_child_shape:
  assumes "shape_of ts = shape_of ts'"
  shows "(find_child t ts = None) = (find_child t ts' = None)"
proof -
  have tg: "\<And>e. tag ` set (children e) = (\<lambda>s. case s of Shape t ss \<Rightarrow> t) ` set (map shape_of (children e))"
    by (force simp: shape_of_alt image_iff)
  show ?thesis
    unfolding find_child_None tg shape_children [OF assms] ..
qed

section \<open>Relabelling the version block\<close>

lemma find_upd_same:
  assumes "\<And>x. tag (g x) = tag x"
  shows "List.find (has_tag t) (upd_first_child (has_tag t) g cs) =
           map_option g (List.find (has_tag t) cs)"
  by (induction cs) (simp_all add: has_tag_def assms)

lemma find_upd_other:
  assumes "t \<noteq> t'" "\<And>x. tag (g x) = tag x"
  shows "List.find (has_tag t) (upd_first_child (has_tag t') g cs) = List.find (has_tag t) cs"
  by (induction cs) (simp_all add: has_tag_def assms)

lemma designator_not_name: "aixm ''designator'' \<noteq> aixm ''name''" "aixm ''name'' \<noteq> aixm ''designator''"
  by (simp_all add: aixm_def)

lemma airport_timeslice_designator:
  "find_child (aixm ''designator'') (airport_timeslice index ts) =
     map_option (set_text (Some (designator_of index))) (find_child (aixm ''designator'') ts)"
  by (simp add: airport_timeslice_def find_child_def find_upd_same
      find_upd_other [OF designator_not_name(1)])

lemma airport_timeslice_name:
  "find_child (aixm ''name'') (airport_timeslice index ts) =
     map_option (set_text (Some (''DONLON INTL. '' @ fmt_02d (index + 1))))
       (find_child (aixm ''name'') ts)"
  by (simp add: airport_timeslice_def find_child_def find_upd_same
      find_upd_other [OF designator_not_name(2)])

lemma tag_airport_timeslice: "tag (airport_timeslice index ts) = tag ts"
  by (simp add: airport_timeslice_def)

lemma first_desc_map_first_in:
  assumes "\<And>x. tag (f x) = tag x"
  shows "first_desc (tag_contains s) [map_first_in (tag_contains s) f e] =
           map_option f (first_desc (tag_contains s) [e])"
proof (cases "tag_contains s e")
  case True
  then have "tag_contains s (f e)"
    using tag_contains_cong [of "f e" e s] assms by simp
  with True show ?thesis by (simp add: map_first_in_def first_desc_Cons)
next
  case False
  then have "\<not> tag_contains s (set_children (map_first (tag_contains s) f (children e)) e)"
    by (simp add: tag_contains_def)
  with False show ?thesis
    using first_desc_map_first [of f s "children e"] assms
    by (simp add: map_first_in_def first_desc_Cons split: option.splits)
qed

lemma type_specific_airport:
  "type_specific_updates index ''AirportHeliport'' e =
     map_first_in (tag_contains ''AirportHeliportTimeSlice'') (airport_timeslice index) e"
  by (simp add: type_specific_updates_def navaid_types_def NAVAID_EQUIPMENT_TYPES_def)

lemma type_specific_vertical_structure:
  "type_specific_updates index ''VerticalStructure'' e =
     map_first_below (tag_contains ''TimeSlice'') (vs_timeslice (suffix_of index)) e"
  by (simp add: type_specific_updates_def navaid_types_def NAVAID_EQUIPMENT_TYPES_def)

lemma clone_steps_shape:
  assumes "clone_steps F um index off offn lr old_uuid feat_type e = Inr e'"
  shows "\<exists>e3. e' = type_specific_updates index feat_type e3 \<and> shape_of e3 = shape_of e"
proof -
  from assms obtain new_uuid e1 where
    e1: "update_feature_ids e new_uuid = Inr e1"
    and e': "e' = type_specific_updates index feat_type
               (if feat_type \<in> set navaid_types \<and> old_uuid \<notin> lr
                then offset_all_coordinates F (update_xlink_refs e1 um) (fst offn) (snd offn)
                else offset_all_coordinates F (update_xlink_refs e1 um) (fst off) (snd off))"
    by (auto simp: clone_steps_def Let_def split: option.splits sum.splits)
  have "shape_of (if feat_type \<in> set navaid_types \<and> old_uuid \<notin> lr
                then offset_all_coordinates F (update_xlink_refs e1 um) (fst offn) (snd offn)
                else offset_all_coordinates F (update_xlink_refs e1 um) (fst off) (snd off))
          = shape_of e"
    by (simp add: shape_offset_all_coordinates shape_update_xlink_refs
        shape_update_feature_ids [OF e1])
  with e' show ?thesis by blast
qed

lemma designator_examples: "designator_of 0 = ''E01D''" "designator_of 9 = ''E10D''"
  by (simp_all add: designator_of_def fmt_02d_def str_of_nat.simps digit_char_def)

section \<open>The anchor's designator and name\<close>

text \<open>
  Claim C7. For the clone with index \<open>index\<close>, in the copy of the AirportHeliport record
  the designator of the version block is \<open>E\<close>, the number \<open>index + 1\<close> padded to two
  digits, and \<open>D\<close> (E01D for index 0, E10D for index 9), and the name is
  \<open>DONLON INTL.\<close> with the same number, whenever the version block of the original has
  that field.
\<close>

theorem airport_relabelled:
  assumes "clone_feature_set F uuids st n collected index grid_cols distance_nm lr =
             Inr (st', cloned, new_ahp_uuid, n')"
    and "refs_in_store st collected"
    and "i < length collected"
    and "collected ! i = (old_uuid, ''AirportHeliport'', orig_elem)"
    and "first_desc (tag_contains ''AirportHeliportTimeSlice'') [st ! orig_elem] = Some ts"
  shows "(\<exists>new_elem ts'. cloned ! i = (''AirportHeliport'', new_elem)
           \<and> first_desc (tag_contains ''AirportHeliportTimeSlice'') [st' ! new_elem] = Some ts'
           \<and> (find_child (aixm ''designator'') ts \<noteq> None \<longrightarrow>
                (\<exists>d. find_child (aixm ''designator'') ts' = Some d
                   \<and> etext d = Some (''E'' @ fmt_02d (index + 1) @ ''D'')))
           \<and> (find_child (aixm ''name'') ts \<noteq> None \<longrightarrow>
                (\<exists>nm. find_child (aixm ''name'') ts' = Some nm
                   \<and> etext nm = Some (''DONLON INTL. '' @ fmt_02d (index + 1)))))
         \<and> designator_of 0 = ''E01D'' \<and> designator_of 9 = ''E10D''"
proof -
  let ?P = "tag_contains ''AirportHeliportTimeSlice''"
  from clone_feature_set_result [OF assms(1,2)] obtain offset offset_nav es where
    st': "st' = st @ es" and len: "length es = length collected"
    and cl: "cloned = zip (map (\<lambda>item. fst (snd item)) collected)
                       [length st ..< length st + length collected]"
    and steps: "\<forall>i < length collected.
               clone_steps F (fst (build_uuid_map uuids n collected)) index offset offset_nav lr
                 (fst (collected ! i)) (fst (snd (collected ! i)))
                 (st ! snd (snd (collected ! i))) = Inr (es ! i)"
    by blast
  from steps assms(3,4) have
    "clone_steps F (fst (build_uuid_map uuids n collected)) index offset offset_nav lr
       old_uuid ''AirportHeliport'' (st ! orig_elem) = Inr (es ! i)"
    by force
  from clone_steps_shape [OF this] obtain e3 where
    e': "es ! i = map_first_in ?P (airport_timeslice index) e3"
    and sh: "shape_of e3 = shape_of (st ! orig_elem)"
    by (auto simp: type_specific_airport)
  have "rel_option (\<lambda>r r'. shape_of r = shape_of r')
          (first_desc ?P [st ! orig_elem]) (first_desc ?P [e3])"
    by (rule first_desc_shape) (simp add: sh)
  with assms(5) obtain ts3 where
    ts3: "first_desc ?P [e3] = Some ts3" and sh3: "shape_of ts = shape_of ts3"
    by (cases "first_desc ?P [e3]") auto
  have found: "first_desc ?P [es ! i] = Some (airport_timeslice index ts3)"
    unfolding e' using first_desc_map_first_in [of "airport_timeslice index" _ e3] ts3
    by (simp add: tag_airport_timeslice)
  have c: "cloned ! i = (''AirportHeliport'', length st + i)"
    using assms(3,4) cl by simp
  have at: "st' ! (length st + i) = es ! i" by (simp add: st')
  have d: "find_child (aixm ''designator'') ts \<noteq> None \<longrightarrow>
             (\<exists>d. find_child (aixm ''designator'') (airport_timeslice index ts3) = Some d
                \<and> etext d = Some (''E'' @ fmt_02d (index + 1) @ ''D''))"
    using find_child_shape [OF sh3, of "aixm ''designator''"]
    by (auto simp: airport_timeslice_designator designator_of_def)
  have nm: "find_child (aixm ''name'') ts \<noteq> None \<longrightarrow>
             (\<exists>nm. find_child (aixm ''name'') (airport_timeslice index ts3) = Some nm
                \<and> etext nm = Some (''DONLON INTL. '' @ fmt_02d (index + 1)))"
    using find_child_shape [OF sh3, of "aixm ''name''"]
    by (auto simp: airport_timeslice_name)
  have "\<exists>new_elem ts'. cloned ! i = (''AirportHeliport'', new_elem)
           \<and> first_desc ?P [st' ! new_elem] = Some ts'
           \<and> (find_child (aixm ''designator'') ts \<noteq> None \<longrightarrow>
                (\<exists>d. find_child (aixm ''designator'') ts' = Some d
                   \<and> etext d = Some (''E'' @ fmt_02d (index + 1) @ ''D'')))
           \<and> (find_child (aixm ''name'') ts \<noteq> None \<longrightarrow>
                (\<exists>nm. find_child (aixm ''name'') ts' = Some nm
                   \<and> etext nm = Some (''DONLON INTL. '' @ fmt_02d (index + 1))))"
    by (rule exI [of _ "length st + i"], rule exI [of _ "airport_timeslice index ts3"],
        intro conjI) (rule c, simp only: at found, rule d, rule nm)
  then show ?thesis using designator_examples by blast
qed

lemma ex_run_first:
  "(case clone_feature_set whole_float ex_uuids ex_store 0 ex_collected 0 6 1200 ex_marked of
      Inl err \<Rightarrow> False
    | Inr r \<Rightarrow> True)"
  by code_simp

lemma ex_airport_fields:
  "(case first_desc (tag_contains ''AirportHeliportTimeSlice'') [ex_store ! 0] of
      None \<Rightarrow> False
    | Some ts \<Rightarrow> find_child (aixm ''designator'') ts \<noteq> None
                \<and> find_child (aixm ''name'') ts \<noteq> None)"
  by code_simp

lemma fmt_02d_1: "fmt_02d 1 = ''01''"
  by (simp add: fmt_02d_def str_of_nat.simps digit_char_def)

theorem airport_relabelled_witness:
  "refs_in_store ex_store ex_collected
   \<and> (\<exists>st' cloned new_ahp_uuid n' new_elem ts' d nm.
         clone_feature_set whole_float ex_uuids ex_store 0 ex_collected 0 6 1200 ex_marked =
           Inr (st', cloned, new_ahp_uuid, n')
         \<and> cloned ! 0 = (''AirportHeliport'', new_elem)
         \<and> first_desc (tag_contains ''AirportHeliportTimeSlice'') [st' ! new_elem] = Some ts'
         \<and> find_child (aixm ''designator'') ts' = Some d \<and> etext d = Some ''E01D''
         \<and> find_child (aixm ''name'') ts' = Some nm \<and> etext nm = Some ''DONLON INTL. 01'')"
proof -
  from ex_run_first obtain st' cloned new_ahp_uuid n' where
    run: "clone_feature_set whole_float ex_uuids ex_store 0 ex_collected 0 6 1200 ex_marked =
            Inr (st', cloned, new_ahp_uuid, n')"
    by (auto split: sum.splits)
  from ex_airport_fields obtain ts where
    ts: "first_desc (tag_contains ''AirportHeliportTimeSlice'') [ex_store ! 0] = Some ts"
    and f: "find_child (aixm ''designator'') ts \<noteq> None" "find_child (aixm ''name'') ts \<noteq> None"
    by (auto split: option.splits)
  have i: "0 < length ex_collected"
    and c: "ex_collected ! 0 = (EADD_UUID, ''AirportHeliport'', 0)"
    by (simp_all add: ex_collected_def)
  from airport_relabelled [OF run ex_wf i c ts] f obtain new_elem ts' d nm where
    "cloned ! 0 = (''AirportHeliport'', new_elem)"
    "first_desc (tag_contains ''AirportHeliportTimeSlice'') [st' ! new_elem] = Some ts'"
    "find_child (aixm ''designator'') ts' = Some d" "etext d = Some ''E01D''"
    "find_child (aixm ''name'') ts' = Some nm" "etext nm = Some ''DONLON INTL. 01''"
    by (auto simp: fmt_02d_1)
  with run have "\<exists>st' cloned new_ahp_uuid n' new_elem ts' d nm.
         clone_feature_set whole_float ex_uuids ex_store 0 ex_collected 0 6 1200 ex_marked =
           Inr (st', cloned, new_ahp_uuid, n')
         \<and> cloned ! 0 = (''AirportHeliport'', new_elem)
         \<and> first_desc (tag_contains ''AirportHeliportTimeSlice'') [st' ! new_elem] = Some ts'
         \<and> find_child (aixm ''designator'') ts' = Some d \<and> etext d = Some ''E01D''
         \<and> find_child (aixm ''name'') ts' = Some nm \<and> etext nm = Some ''DONLON INTL. 01''"
    by (intro exI conjI)
  with ex_wf show ?thesis by (intro conjI)
qed

section \<open>The properties removed from a structure\<close>

lemma tag_remove_property: "tag (remove_property e p) = tag e"
  by (simp add: remove_property_def)

lemma tag_remove_properties: "tag (foldl remove_property e ps) = tag e"
  by (induction ps arbitrary: e) (simp_all add: tag_remove_property)

lemma children_remove_property:
  "children (remove_property e p) = filter (\<lambda>c. \<not> has_tag (aixm p) c) (children e)"
  by (simp add: remove_property_def)

lemma children_remove_properties:
  "children (foldl remove_property e ps) =
     filter (\<lambda>c. \<forall>p \<in> set ps. \<not> has_tag (aixm p) c) (children e)"
proof (induction ps arbitrary: e)
  case Nil
  then show ?case by simp
next
  case (Cons p ps)
  have "children (foldl remove_property e (p # ps)) =
          filter (\<lambda>c. \<forall>q \<in> set ps. \<not> has_tag (aixm q) c)
            (filter (\<lambda>c. \<not> has_tag (aixm p) c) (children e))"
    using Cons [of "remove_property e p"] by (simp only: foldl_Cons children_remove_property)
  also have "\<dots> = filter (\<lambda>c. \<forall>q \<in> set (p # ps). \<not> has_tag (aixm q) c) (children e)"
    by (auto intro: filter_cong)
  finally show ?case .
qed

lemma tag_suffix_parts: "tag (suffix_parts sfx e) = tag e"
  by (cases e) simp

lemma tag_vs_timeslice: "tag (vs_timeslice sfx ts) = tag ts"
  by (simp add: vs_timeslice_def tag_remove_properties tag_suffix_parts)

lemma find_child_vs_timeslice:
  "prop_name \<in> set VS_PROPERTIES_TO_REMOVE \<Longrightarrow>
     find_child (aixm prop_name) (vs_timeslice sfx ts) = None"
  by (auto simp: find_child_def find_None_iff vs_timeslice_def children_remove_properties)

text \<open>
  Claim C6. Cloning allocates new objects and leaves every object of the store as it
  was, the VerticalStructure records of the belonging set among them. In the copy of
  such a record, the version block (the first TimeSlice) exists when the original has
  one, and it has no child with any of the six listed names.
\<close>

theorem vs_properties_removed:
  assumes "clone_feature_set F uuids st n collected index grid_cols distance_nm lr =
             Inr (st', cloned, new_ahp_uuid, n')"
    and "refs_in_store st collected"
    and "i < length collected"
    and "collected ! i = (old_uuid, ''VerticalStructure'', orig_elem)"
    and "first_desc (tag_contains ''TimeSlice'') (children (st ! orig_elem)) = Some ts"
    and "prop_name \<in> set VS_PROPERTIES_TO_REMOVE"
  shows "(\<forall>r < length st. st' ! r = st ! r)
       \<and> st' ! orig_elem = st ! orig_elem
       \<and> (\<exists>new_elem ts'. cloned ! i = (''VerticalStructure'', new_elem)
             \<and> length st \<le> new_elem
             \<and> first_desc (tag_contains ''TimeSlice'') (children (st' ! new_elem)) = Some ts'
             \<and> find_child (aixm prop_name) ts' = None)"
proof -
  let ?P = "tag_contains ''TimeSlice''"
  from clone_feature_set_result [OF assms(1,2)] obtain offset offset_nav es where
    st': "st' = st @ es" and len: "length es = length collected"
    and cl: "cloned = zip (map (\<lambda>item. fst (snd item)) collected)
                       [length st ..< length st + length collected]"
    and steps: "\<forall>i < length collected.
               clone_steps F (fst (build_uuid_map uuids n collected)) index offset offset_nav lr
                 (fst (collected ! i)) (fst (snd (collected ! i)))
                 (st ! snd (snd (collected ! i))) = Inr (es ! i)"
    by blast
  have frame: "\<forall>r < length st. st' ! r = st ! r"
    by (simp add: st' nth_append)
  have "orig_elem < length st"
    using assms(2,3,4) by (force simp: refs_in_store_def list_all_length)
  with frame have orig: "st' ! orig_elem = st ! orig_elem" by simp
  from steps assms(3,4) have
    "clone_steps F (fst (build_uuid_map uuids n collected)) index offset offset_nav lr
       old_uuid ''VerticalStructure'' (st ! orig_elem) = Inr (es ! i)"
    by force
  from clone_steps_shape [OF this] obtain e3 where
    e': "es ! i = map_first_below ?P (vs_timeslice (suffix_of index)) e3"
    and sh: "shape_of e3 = shape_of (st ! orig_elem)"
    by (auto simp: type_specific_vertical_structure)
  have "rel_option (\<lambda>r r'. shape_of r = shape_of r')
          (first_desc ?P (children (st ! orig_elem))) (first_desc ?P (children e3))"
    by (rule first_desc_shape) (simp add: shape_children [OF sh])
  with assms(5) obtain ts3 where ts3: "first_desc ?P (children e3) = Some ts3"
    by (cases "first_desc ?P (children e3)") auto
  have found: "first_desc ?P (children (es ! i)) = Some (vs_timeslice (suffix_of index) ts3)"
    unfolding e' map_first_below_def
    using first_desc_map_first [of "vs_timeslice (suffix_of index)" _ "children e3"] ts3
    by (simp add: tag_vs_timeslice)
  have c: "cloned ! i = (''VerticalStructure'', length st + i)"
    using assms(3,4) cl by simp
  have at: "st' ! (length st + i) = es ! i" by (simp add: st')
  have "\<exists>new_elem ts'. cloned ! i = (''VerticalStructure'', new_elem)
             \<and> length st \<le> new_elem
             \<and> first_desc ?P (children (st' ! new_elem)) = Some ts'
             \<and> find_child (aixm prop_name) ts' = None"
    by (rule exI [of _ "length st + i"], rule exI [of _ "vs_timeslice (suffix_of index) ts3"],
        intro conjI)
       (rule c, simp, simp only: at found, rule find_child_vs_timeslice [OF assms(6)])
  with frame orig show ?thesis by (intro conjI)
qed

lemma ex_tower_block:
  "(case first_desc (tag_contains ''TimeSlice'') (children (ex_store ! 4)) of
      None \<Rightarrow> False
    | Some ts \<Rightarrow> find_child (aixm ''hostedUnit'') ts \<noteq> None)"
  by code_simp

theorem vs_properties_removed_witness:
  "refs_in_store ex_store ex_collected
   \<and> ''hostedUnit'' \<in> set VS_PROPERTIES_TO_REMOVE
   \<and> (\<exists>ts. first_desc (tag_contains ''TimeSlice'') (children (ex_store ! 4)) = Some ts
          \<and> find_child (aixm ''hostedUnit'') ts \<noteq> None)
   \<and> (\<exists>st' cloned new_ahp_uuid n' new_elem ts'.
         clone_feature_set whole_float ex_uuids ex_store 0 ex_collected 0 6 1200 ex_marked =
           Inr (st', cloned, new_ahp_uuid, n')
         \<and> st' ! 4 = ex_store ! 4
         \<and> cloned ! 4 = (''VerticalStructure'', new_elem)
         \<and> first_desc (tag_contains ''TimeSlice'') (children (st' ! new_elem)) = Some ts'
         \<and> find_child (aixm ''hostedUnit'') ts' = None)"
proof -
  from ex_run_first obtain st' cloned new_ahp_uuid n' where
    run: "clone_feature_set whole_float ex_uuids ex_store 0 ex_collected 0 6 1200 ex_marked =
            Inr (st', cloned, new_ahp_uuid, n')"
    by (auto split: sum.splits)
  from ex_tower_block obtain ts where
    ts: "first_desc (tag_contains ''TimeSlice'') (children (ex_store ! 4)) = Some ts"
    and f: "find_child (aixm ''hostedUnit'') ts \<noteq> None"
    by (auto split: option.splits)
  have i: "4 < length ex_collected"
    and c: "ex_collected ! 4 = (''v1'', ''VerticalStructure'', 4)"
    and p: "''hostedUnit'' \<in> set VS_PROPERTIES_TO_REMOVE"
    by (simp_all add: ex_collected_def VS_PROPERTIES_TO_REMOVE_def)
  from vs_properties_removed [OF run ex_wf i c ts p] obtain new_elem ts' where
    "st' ! 4 = ex_store ! 4"
    "cloned ! 4 = (''VerticalStructure'', new_elem)"
    "first_desc (tag_contains ''TimeSlice'') (children (st' ! new_elem)) = Some ts'"
    "find_child (aixm ''hostedUnit'') ts' = None"
    by auto
  with run have r: "\<exists>st' cloned new_ahp_uuid n' new_elem ts'.
         clone_feature_set whole_float ex_uuids ex_store 0 ex_collected 0 6 1200 ex_marked =
           Inr (st', cloned, new_ahp_uuid, n')
         \<and> st' ! 4 = ex_store ! 4
         \<and> cloned ! 4 = (''VerticalStructure'', new_elem)
         \<and> first_desc (tag_contains ''TimeSlice'') (children (st' ! new_elem)) = Some ts'
         \<and> find_child (aixm ''hostedUnit'') ts' = None"
    by (intro exI conjI)
  from ts f have o: "\<exists>ts. first_desc (tag_contains ''TimeSlice'') (children (ex_store ! 4)) = Some ts
          \<and> find_child (aixm ''hostedUnit'') ts \<noteq> None"
    by (intro exI conjI)
  from ex_wf p o r show ?thesis by (intro conjI)
qed


end
